theory Spec2Isabelle
  imports Main
begin

section \<open>Values, time and exceptions\<close>

text \<open>
  The arguments of a task are JSON-like Python values. A \<open>datetime\<close> is a point in time
  and a \<open>timedelta\<close> a duration, both counted in microseconds (the resolution of Python's
  \<open>datetime\<close> module); the range limits of Python's \<open>datetime\<close> are not modelled.
  \<open>timedelta_seconds n\<close> is \<open>timedelta(seconds=n)\<close>.
\<close>

datatype pyval = PNone | PBool bool | PInt int | PStr string
  | PList "pyval list" | PDict "(string \<times> pyval) list"

type_synonym args = "pyval list"
type_synonym kwargs = "(string \<times> pyval) list"
type_synonym datetime = int
type_synonym timedelta = int

definition timedelta_seconds :: "int \<Rightarrow> timedelta" where
  "timedelta_seconds n = n * 1000000"

text \<open>
  The exceptions the module meets. \<open>NonException\<close> stands for the exceptions that do not
  derive from Python's \<open>Exception\<close> (\<open>KeyboardInterrupt\<close>, \<open>SystemExit\<close>): an
  \<open>except Exception\<close> clause does not catch them.
\<close>

datatype exc = BackgroundTaskError | KeyError string | TypeError | OperationalError
  | IntegrityError | OtherException string | NonException string

fun is_Exception :: "exc \<Rightarrow> bool" where
  "is_Exception (NonException _) = False"
| "is_Exception _ = True"

section \<open>TaskSchedule\<close>

definition SCHEDULE :: int where "SCHEDULE = 0"
definition RESCHEDULE_EXISTING :: int where "RESCHEDULE_EXISTING = 1"
definition CHECK_EXISTING :: int where "CHECK_EXISTING = 2"

text \<open>What \<open>_run_at\<close> may hold: an \<open>int\<close>, a \<open>timedelta\<close> or a \<open>datetime\<close>.\<close>

datatype run_at_value = RInt int | RTimedelta timedelta | RDatetime datetime

text \<open>
  The three attributes \<open>_run_at\<close>, \<open>_priority\<close>, \<open>_action\<close> of a \<open>TaskSchedule\<close>
  (an Isabelle name cannot start with an underscore); \<open>None\<close> is Python's \<open>None\<close>.
\<close>

record TaskSchedule =
  priv_run_at :: "run_at_value option"
  priv_priority :: "int option"
  priv_action :: "int option"

text \<open>
  The argument of \<open>TaskSchedule.create\<close>: \<open>None\<close>, an \<open>int\<close>, a \<open>timedelta\<close>, a
  \<open>datetime\<close>, a dict, or a \<open>TaskSchedule\<close>. Of a dict only the entries \<open>run_at\<close>,
  \<open>priority\<close> and \<open>action\<close> are ever read, each with \<open>get(key, None)\<close>: the dict is
  given by these three entries, \<open>None\<close> for an entry that is missing or holds \<open>None\<close>.
\<close>

datatype schedule_arg = ANone | AInt int | ATimedelta timedelta | ADatetime datetime
  | ADict "run_at_value option" "int option" "int option" | ATaskSchedule TaskSchedule

text \<open>
  Python truth of \<open>if schedule:\<close>. A dict holding none of the three entries and an empty
  dict give the same \<open>TaskSchedule\<close> in either branch, so they are both counted false.
\<close>

fun truthy :: "schedule_arg \<Rightarrow> bool" where
  "truthy ANone = False"
| "truthy (AInt n) = (n \<noteq> 0)"
| "truthy (ATimedelta d) = (d \<noteq> 0)"
| "truthy (ADatetime t) = True"
| "truthy (ADict r p a) = (case (r, p, a) of (None, None, None) \<Rightarrow> False | _ \<Rightarrow> True)"
| "truthy (ATaskSchedule ts) = True"

fun TaskSchedule_create :: "schedule_arg \<Rightarrow> TaskSchedule" where
  "TaskSchedule_create (ATaskSchedule ts) = ts"
| "TaskSchedule_create schedule =
     (if truthy schedule then
        (case schedule of
           AInt n \<Rightarrow> \<lparr>priv_run_at = Some (RInt n), priv_priority = None, priv_action = None\<rparr>
         | ATimedelta d \<Rightarrow>
             \<lparr>priv_run_at = Some (RTimedelta d), priv_priority = None, priv_action = None\<rparr>
         | ADatetime t \<Rightarrow>
             \<lparr>priv_run_at = Some (RDatetime t), priv_priority = None, priv_action = None\<rparr>
         | ADict r p a \<Rightarrow> \<lparr>priv_run_at = r, priv_priority = p, priv_action = a\<rparr>
         | _ \<Rightarrow> \<lparr>priv_run_at = None, priv_priority = None, priv_action = None\<rparr>)
      else \<lparr>priv_run_at = None, priv_priority = None, priv_action = None\<rparr>)"

text \<open>\<open>self.merge(schedule)\<close>: an attribute of \<open>self\<close> that is not \<open>None\<close> is kept.\<close>

definition merge :: "TaskSchedule \<Rightarrow> TaskSchedule \<Rightarrow> TaskSchedule" where
  "merge self schedule =
     \<lparr>priv_run_at = (case priv_run_at self of None \<Rightarrow> priv_run_at schedule | Some v \<Rightarrow> Some v),
      priv_priority = (case priv_priority self of None \<Rightarrow> priv_priority schedule | Some v \<Rightarrow> Some v),
      priv_action = (case priv_action self of None \<Rightarrow> priv_action schedule | Some v \<Rightarrow> Some v)\<rparr>"

text \<open>
  The property \<open>run_at\<close>, at the clock reading \<open>now\<close>. \<open>self._run_at or timezone.now()\<close>
  replaces \<open>None\<close>, the integer 0 and the empty duration by the clock; then an \<open>int\<close> is
  an offset in seconds and a \<open>timedelta\<close> an offset. Each path reads the clock once.
\<close>

fun falsy_run_at :: "run_at_value \<Rightarrow> bool" where
  "falsy_run_at (RInt n) = (n = 0)"
| "falsy_run_at (RTimedelta d) = (d = 0)"
| "falsy_run_at (RDatetime t) = False"

definition TaskSchedule_run_at :: "datetime \<Rightarrow> TaskSchedule \<Rightarrow> datetime" where
  "TaskSchedule_run_at now self =
     (case (case priv_run_at self of
              None \<Rightarrow> RDatetime now
            | Some v \<Rightarrow> if falsy_run_at v then RDatetime now else v) of
        RInt n \<Rightarrow> now + timedelta_seconds n
      | RTimedelta d \<Rightarrow> now + d
      | RDatetime t \<Rightarrow> t)"

text \<open>\<open>self._priority or 0\<close> and \<open>self._action or TaskSchedule.SCHEDULE\<close>.\<close>

definition TaskSchedule_priority :: "TaskSchedule \<Rightarrow> int" where
  "TaskSchedule_priority self =
     (case priv_priority self of None \<Rightarrow> 0 | Some p \<Rightarrow> if p = 0 then 0 else p)"

definition TaskSchedule_action :: "TaskSchedule \<Rightarrow> int" where
  "TaskSchedule_action self =
     (case priv_action self of None \<Rightarrow> SCHEDULE | Some a \<Rightarrow> if a = 0 then SCHEDULE else a)"

section \<open>The pending-task table\<close>

text \<open>
  A row of the table of pending tasks, with the columns this module passes to
  \<open>Task.objects.new_task\<close> or names in its queries. \<open>task_id\<close> is \<open>None\<close> until the row is
  saved. \<open>task_params\<close> holds the positional and keyword arguments.
\<close>

record Task =
  task_id :: "nat option"
  task_name :: string
  task_params :: "args \<times> kwargs"
  task_hash :: string
  priority :: int
  run_at :: datetime
  queue :: "string option"
  verbose_name :: "string option"
  creator :: "string option"
  repeat :: "timedelta option"
  repeat_until :: "datetime option"
  locked_by :: "string option"
  locked_at :: "datetime option"

datatype signal = task_created Task | task_started | task_successful Task | task_error exc Task
  | task_finished

text \<open>
  The state a schedule call works on: the rows in insertion order, the next free row id,
  and the signals sent so far.
\<close>

record world =
  tasks :: "Task list"
  next_id :: nat
  sent :: "signal list"

text \<open>
  The arguments of \<open>DBTaskRunner.schedule\<close>, with the defaults of its signature in
  \<open>default_call\<close>.
\<close>

record sched_call =
  sc_task_name :: string
  sc_args :: args
  sc_kwargs :: kwargs
  sc_run_at :: "datetime option"
  sc_priority :: int
  sc_action :: int
  sc_queue :: "string option"
  sc_verbose_name :: "string option"
  sc_creator :: "string option"
  sc_repeat :: "timedelta option"
  sc_repeat_until :: "datetime option"
  sc_remove_existing_tasks :: bool

definition default_call :: "string \<Rightarrow> args \<Rightarrow> kwargs \<Rightarrow> sched_call" where
  "default_call n a k =
     \<lparr>sc_task_name = n, sc_args = a, sc_kwargs = k, sc_run_at = None, sc_priority = 0,
      sc_action = SCHEDULE, sc_queue = None, sc_verbose_name = None, sc_creator = None,
      sc_repeat = None, sc_repeat_until = None, sc_remove_existing_tasks = False\<rparr>"

text \<open>
  Modelled from the spec: \<open>Task.objects.unlocked(now)\<close> of \<open>models.py\<close>, which is not among
  the sources. A row is unlocked when \<open>locked_by\<close> is null or its lock is older than the
  configured time to live \<open>ttl\<close> (section 4.2, step 1).
\<close>

definition unlocked :: "timedelta \<Rightarrow> datetime \<Rightarrow> Task \<Rightarrow> bool" where
  "unlocked ttl now t =
     (locked_by t = None \<or> (case locked_at t of None \<Rightarrow> False | Some la \<Rightarrow> la < now - ttl))"

text \<open>
  Modelled from the spec: the fingerprint of a request, computed in \<open>models.py\<close>, which is
  not among the sources. It is a deterministic function \<open>hf\<close> of the name and the
  arguments (section 3); the theorems hold for every such function.
\<close>

definition fingerprint :: "(string \<Rightarrow> args \<Rightarrow> kwargs \<Rightarrow> string) \<Rightarrow> sched_call \<Rightarrow> string" where
  "fingerprint hf c = hf (sc_task_name c) (sc_args c) (sc_kwargs c)"

text \<open>
  Modelled from the spec: \<open>Task.objects.new_task\<close> of \<open>models.py\<close>, which is not among the
  sources. It builds an unsaved, unlocked row with the fingerprint of the request and with
  \<open>run_at\<close> the clock when none is given; with \<open>remove_existing_tasks\<close> it first deletes
  the unlocked rows of the same fingerprint (section 4.1).
\<close>

definition new_task ::
  "(string \<Rightarrow> args \<Rightarrow> kwargs \<Rightarrow> string) \<Rightarrow> timedelta \<Rightarrow> datetime \<Rightarrow> sched_call \<Rightarrow> world
    \<Rightarrow> Task \<times> world" where
  "new_task hf ttl now c w =
     (let h = fingerprint hf c;
          w1 = (if sc_remove_existing_tasks c
                then w\<lparr>tasks := filter (\<lambda>t. \<not> (task_hash t = h \<and> unlocked ttl now t)) (tasks w)\<rparr>
                else w)
      in (\<lparr>task_id = None, task_name = sc_task_name c,
           task_params = (sc_args c, sc_kwargs c), task_hash = h,
           priority = sc_priority c,
           run_at = (case sc_run_at c of None \<Rightarrow> now | Some r \<Rightarrow> r),
           queue = sc_queue c, verbose_name = sc_verbose_name c, creator = sc_creator c,
           repeat = sc_repeat c, repeat_until = sc_repeat_until c,
           locked_by = None, locked_at = None\<rparr>, w1))"

text \<open>
  Modelled from the spec: the queryset method \<open>update(run_at=..., priority=...)\<close> on the rows
  selected by \<open>sel\<close>. It writes both columns of every selected row in place and returns
  the number of rows written. \<open>run_at\<close> is a timestamp column that is not nullable
  (section 3), so the store refuses to write \<open>None\<close> into a row.
\<close>

definition update ::
  "(Task \<Rightarrow> bool) \<Rightarrow> datetime option \<Rightarrow> int \<Rightarrow> world \<Rightarrow> exc + (nat \<times> world)" where
  "update sel r p w =
     (let n = length (filter sel (tasks w)) in
      if n = 0 then Inr (0, w)
      else (case r of
              None \<Rightarrow> Inl IntegrityError
            | Some r' \<Rightarrow>
                Inr (n, w\<lparr>tasks := map (\<lambda>t. if sel t then t\<lparr>run_at := r', priority := p\<rparr> else t)
                                      (tasks w)\<rparr>)))"

text \<open>
  Modelled from the spec: \<open>task.save()\<close> of a row that has no id yet appends it to the
  table under the next free id.
\<close>

definition save :: "Task \<Rightarrow> world \<Rightarrow> Task \<times> world" where
  "save task w =
     (let t = task\<lparr>task_id := Some (next_id w)\<rparr>
      in (t, w\<lparr>tasks := tasks w @ [t], next_id := Suc (next_id w)\<rparr>))"

section \<open>DBTaskRunner.schedule\<close>

text \<open>The last three lines of \<open>schedule\<close>: save, send \<open>task_created\<close>, return the task.\<close>

definition save_and_send :: "Task \<Rightarrow> world \<Rightarrow> exc + (Task option \<times> world)" where
  "save_and_send task w =
     (let (t, w1) = save task w
      in Inr (Some t, w1\<lparr>sent := sent w1 @ [task_created t]\<rparr>))"

text \<open>\<open>if queue:\<close> holds for a string that is not empty.\<close>

fun truthy_queue :: "string option \<Rightarrow> bool" where
  "truthy_queue None = False"
| "truthy_queue (Some q) = (q \<noteq> [])"

text \<open>
  The rows \<open>existing\<close> selects: unlocked, of the fingerprint of the new row, and of the
  queue of the call when one is given.
\<close>

definition existing :: "timedelta \<Rightarrow> datetime \<Rightarrow> sched_call \<Rightarrow> Task \<Rightarrow> Task \<Rightarrow> bool" where
  "existing ttl now c task t =
     (unlocked ttl now t \<and> task_hash t = task_hash task
      \<and> (if truthy_queue (sc_queue c) then queue t = sc_queue c else True))"

text \<open>
  \<open>schedule\<close> at the clock reading \<open>now\<close> (the readings within one call are taken as one).
  A bare \<open>return\<close> gives the result \<open>None\<close>. The method has no handler: an exception of
  the store ends the call.
\<close>

definition schedule ::
  "(string \<Rightarrow> args \<Rightarrow> kwargs \<Rightarrow> string) \<Rightarrow> timedelta \<Rightarrow> datetime \<Rightarrow> sched_call \<Rightarrow> world
    \<Rightarrow> exc + (Task option \<times> world)" where
  "schedule hf ttl now c w =
     (let (task, w1) = new_task hf ttl now c w in
      if sc_action c \<noteq> SCHEDULE then
        if sc_action c = RESCHEDULE_EXISTING then
          (case update (existing ttl now c task) (sc_run_at c) (sc_priority c) w1 of
             Inl e \<Rightarrow> Inl e
           | Inr (updated, w2) \<Rightarrow>
               if updated \<noteq> 0 then Inr (None, w2) else save_and_send task w2)
        else if sc_action c = CHECK_EXISTING then
          (if length (filter (existing ttl now c task) (tasks w1)) \<noteq> 0 then Inr (None, w1)
           else save_and_send task w1)
        else save_and_send task w1
      else save_and_send task w1)"

section \<open>TaskProxy\<close>

text \<open>
  A registered unit. The callable takes the positional and keyword arguments and either
  returns (\<open>None\<close>; its value is never used) or raises. The runner a proxy holds is the one
  \<open>DBTaskRunner\<close> of the process and is left out.
\<close>

record TaskProxy =
  proxy_name :: string
  proxy_task_function :: "(args \<Rightarrow> kwargs \<Rightarrow> exc option) option"
  proxy_schedule :: TaskSchedule
  proxy_queue :: "string option"
  proxy_remove_existing_tasks :: bool

definition TaskProxy_init ::
  "string \<Rightarrow> (args \<Rightarrow> kwargs \<Rightarrow> exc option) option \<Rightarrow> schedule_arg \<Rightarrow> string option \<Rightarrow> bool
    \<Rightarrow> TaskProxy" where
  "TaskProxy_init n fn sched q rm =
     \<lparr>proxy_name = n, proxy_task_function = fn, proxy_schedule = TaskSchedule_create sched,
      proxy_queue = q, proxy_remove_existing_tasks = rm\<rparr>"

text \<open>
  The keyword arguments \<open>__call__\<close> pops, \<open>None\<close> for a key that is not passed, and the
  keyword arguments that remain for the task. \<open>schedule\<close>, \<open>verbose_name\<close>, \<open>creator\<close>,
  \<open>repeat\<close> and \<open>repeat_until\<close> default to \<open>None\<close>, so a missing key and \<open>None\<close> are one.
\<close>

record call_kwargs =
  kw_schedule :: schedule_arg
  kw_priority :: "int option"
  kw_queue :: "string option option"
  kw_verbose_name :: "string option"
  kw_creator :: "string option"
  kw_repeat :: "timedelta option"
  kw_repeat_until :: "datetime option"
  kw_remove_existing_tasks :: "bool option"
  kw_rest :: kwargs

definition no_kwargs :: call_kwargs where
  "no_kwargs = \<lparr>kw_schedule = ANone, kw_priority = None, kw_queue = None,
     kw_verbose_name = None, kw_creator = None, kw_repeat = None, kw_repeat_until = None,
     kw_remove_existing_tasks = None, kw_rest = []\<rparr>"

text \<open>What \<open>__call__\<close> passes to \<open>runner.schedule\<close>, at the clock reading \<open>now\<close>.\<close>

definition TaskProxy_call_args :: "datetime \<Rightarrow> TaskProxy \<Rightarrow> args \<Rightarrow> call_kwargs \<Rightarrow> sched_call" where
  "TaskProxy_call_args now self a kw =
     (let sched = merge (TaskSchedule_create (kw_schedule kw)) (proxy_schedule self) in
      \<lparr>sc_task_name = proxy_name self, sc_args = a, sc_kwargs = kw_rest kw,
       sc_run_at = Some (TaskSchedule_run_at now sched),
       sc_priority = (case kw_priority kw of None \<Rightarrow> TaskSchedule_priority sched | Some p \<Rightarrow> p),
       sc_action = TaskSchedule_action sched,
       sc_queue = (case kw_queue kw of None \<Rightarrow> proxy_queue self | Some q \<Rightarrow> q),
       sc_verbose_name = kw_verbose_name kw, sc_creator = kw_creator kw,
       sc_repeat = kw_repeat kw, sc_repeat_until = kw_repeat_until kw,
       sc_remove_existing_tasks =
         (case kw_remove_existing_tasks kw of
            None \<Rightarrow> proxy_remove_existing_tasks self | Some b \<Rightarrow> b)\<rparr>)"

definition TaskProxy_call ::
  "(string \<Rightarrow> args \<Rightarrow> kwargs \<Rightarrow> string) \<Rightarrow> timedelta \<Rightarrow> datetime \<Rightarrow> TaskProxy \<Rightarrow> args
    \<Rightarrow> call_kwargs \<Rightarrow> world \<Rightarrow> exc + (Task option \<times> world)" where
  "TaskProxy_call hf ttl now self a kw w =
     schedule hf ttl now (TaskProxy_call_args now self a kw) w"

section \<open>bg_runner\<close>

text \<open>
  What \<open>bg_runner\<close> does to the world outside this module is a sequence of actions: a
  signal sent, the callable called, a method of the \<open>Task\<close> model called, a line logged.
  The trace of a run lists the actions begun, in order.
\<close>

datatype action = Send signal | Call args kwargs | Params Task | GetTask string args kwargs
  | IncrementAttempts Task | CreateCompletedTask Task | CreateRepetition Task | Delete Task
  | Reschedule Task exc | Log string

text \<open>
  The surroundings of a run, none of them among the sources: \<open>params\<close> is \<open>task.params()\<close>,
  \<open>get_task\<close> the rows \<open>Task.objects.get_task\<close> finds, and \<open>fails\<close> tells for every other
  action the exception it raises, if any.
\<close>

record env =
  params :: "Task \<Rightarrow> exc + (args \<times> kwargs)"
  get_task :: "string \<Rightarrow> args \<Rightarrow> kwargs \<Rightarrow> exc + Task list"
  fails :: "action \<Rightarrow> exc option"

text \<open>Statements in sequence: the first action that raises ends the block.\<close>

fun perform :: "env \<Rightarrow> action list \<Rightarrow> action list \<Rightarrow> exc option \<times> action list" where
  "perform e [] tr = (None, tr)"
| "perform e (a # as) tr =
     (case fails e a of
        Some x \<Rightarrow> (Some x, tr @ [a])
      | None \<Rightarrow> perform e as (tr @ [a]))"

text \<open>
  From \<open>if func is None\<close> to the end of the \<open>try\<close> block, with \<open>task\<close>, \<open>args\<close> and
  \<open>kwargs\<close> as the lines before left them. The result carries \<open>task\<close>, which the handler
  reads.
\<close>

definition bg_call ::
  "env \<Rightarrow> TaskProxy \<Rightarrow> Task option \<Rightarrow> args \<Rightarrow> kwargs \<Rightarrow> action list
    \<Rightarrow> exc option \<times> Task option \<times> action list" where
  "bg_call e proxy_task task a k tr =
     (case proxy_task_function proxy_task of
        None \<Rightarrow> (Some BackgroundTaskError, task, tr)
      | Some func \<Rightarrow>
          (case func a k of
             Some x \<Rightarrow> (Some x, task, tr @ [Call a k])
           | None \<Rightarrow>
               (case task of
                  None \<Rightarrow> (None, task, tr @ [Call a k])
                | Some t \<Rightarrow>
                    (let (r, tr') = perform e
                           [IncrementAttempts t, CreateCompletedTask t, Send (task_successful t),
                            CreateRepetition t, Delete t, Log ''Ran task and deleting'']
                           (tr @ [Call a k])
                     in (r, task, tr')))))"

text \<open>The \<open>try\<close> block.\<close>

definition bg_try ::
  "env \<Rightarrow> TaskProxy \<Rightarrow> Task option \<Rightarrow> args \<Rightarrow> kwargs \<Rightarrow> action list
    \<Rightarrow> exc option \<times> Task option \<times> action list" where
  "bg_try e proxy_task task a k tr =
     (case task of
        Some t \<Rightarrow>
          (case params e t of
             Inl x \<Rightarrow> (Some x, task, tr @ [Params t])
           | Inr (a', k') \<Rightarrow> bg_call e proxy_task task a' k' (tr @ [Params t]))
      | None \<Rightarrow>
          (case get_task e (proxy_name proxy_task) a k of
             Inl x \<Rightarrow> (Some x, None, tr @ [GetTask (proxy_name proxy_task) a k])
           | Inr task_qs \<Rightarrow>
               (let task_qs' = (if truthy_queue (proxy_queue proxy_task)
                                then filter (\<lambda>t. queue t = proxy_queue proxy_task) task_qs
                                else task_qs);
                    task' = (case task_qs' of [] \<Rightarrow> None | t # _ \<Rightarrow> Some t)
                in bg_call e proxy_task task' a k (tr @ [GetTask (proxy_name proxy_task) a k]))))"

text \<open>\<open>signals.task_finished.send(Task)\<close>, the last line.\<close>

definition bg_finish :: "env \<Rightarrow> action list \<Rightarrow> exc option \<times> action list" where
  "bg_finish e tr = perform e [Send task_finished] tr"

text \<open>
  What follows the \<open>try\<close> block, which ended with \<open>r\<close> (\<open>None\<close>, or the exception it
  raised), with \<open>task\<close> as it left it: the handler catches what derives from \<open>Exception\<close>,
  and what the handler raises itself leaves the function; then the last line.
\<close>

definition bg_after_try ::
  "env \<Rightarrow> exc option \<Rightarrow> Task option \<Rightarrow> action list \<Rightarrow> exc option \<times> action list" where
  "bg_after_try e r task tr1 =
     (case r of
        None \<Rightarrow> bg_finish e tr1
      | Some ex \<Rightarrow>
          if is_Exception ex then
            (case task of
               None \<Rightarrow> bg_finish e tr1
             | Some t \<Rightarrow>
                 (case perform e [Log ''Rescheduling'', Send (task_error ex t),
                                  Reschedule t ex] tr1 of
                    (Some y, tr2) \<Rightarrow> (Some y, tr2)
                  | (None, tr2) \<Rightarrow> bg_finish e tr2))
          else (Some ex, tr1))"

text \<open>The body of \<open>bg_runner\<close>: the exception that leaves it, if any, and its trace.\<close>

definition bg_runner_body ::
  "env \<Rightarrow> TaskProxy \<Rightarrow> Task option \<Rightarrow> args \<Rightarrow> kwargs \<Rightarrow> exc option \<times> action list" where
  "bg_runner_body e proxy_task task a k =
     (case perform e [Send task_started] [] of
        (Some x, tr) \<Rightarrow> (Some x, tr)
      | (None, tr) \<Rightarrow>
          (case bg_try e proxy_task task a k tr of
             (r, task', tr1) \<Rightarrow> bg_after_try e r task' tr1))"

text \<open>
  A call \<open>f(x, y, *args, **kwargs)\<close> of a function whose first parameters are named
  raises \<open>TypeError\<close> before the body runs when a keyword names one of the parameters the
  positional arguments have filled.
\<close>

definition clash :: "string list \<Rightarrow> kwargs \<Rightarrow> bool" where
  "clash names k = list_ex (\<lambda>kv. fst kv \<in> set names) k"

text \<open>
  The call \<open>bg_runner(proxy_task, task, *args, **kwargs)\<close>, as \<open>Tasks.run_task\<close> and the
  thread pool make it.
\<close>

definition bg_runner ::
  "env \<Rightarrow> TaskProxy \<Rightarrow> Task option \<Rightarrow> args \<Rightarrow> kwargs \<Rightarrow> exc option \<times> action list" where
  "bg_runner e proxy_task task a k =
     (if clash [''proxy_task'', ''task''] k then (Some TypeError, [])
      else bg_runner_body e proxy_task task a k)"

section \<open>Tasks.run_task and PoolRunner\<close>

text \<open>
  A call handed to the thread pool: \<open>apply_async\<close> queues \<open>bg_runner\<close> with its arguments
  and returns at once; a thread of the pool runs it later.
\<close>

type_synonym job = "TaskProxy \<times> Task option \<times> args \<times> kwargs"

definition run_job :: "env \<Rightarrow> job \<Rightarrow> exc option \<times> action list" where
  "run_job e j = (case j of (proxy_task, task, a, k) \<Rightarrow> bg_runner e proxy_task task a k)"

text \<open>
  What a call leaves behind in the calling thread: the exception it raises, if any, the
  actions done before it returned, and the jobs it handed to the pool.
\<close>

record run_result =
  raised :: "exc option"
  trace :: "action list"
  submitted :: "job list"

text \<open>
  \<open>PoolRunner.run(self, proxy_task, task, *args, **kwargs)\<close>, which \<open>__call__\<close> names.
\<close>

definition PoolRunner_run :: "TaskProxy \<Rightarrow> Task option \<Rightarrow> args \<Rightarrow> kwargs \<Rightarrow> run_result" where
  "PoolRunner_run proxy_task task a k =
     (if clash [''self'', ''proxy_task'', ''task''] k
      then \<lparr>raised = Some TypeError, trace = [], submitted = []\<rparr>
      else \<lparr>raised = None, trace = [], submitted = [(proxy_task, task, a, k)]\<rparr>)"

text \<open>
  \<open>Tasks.run_task\<close>. \<open>run_async\<close> is the setting \<open>BACKGROUND_TASK_RUN_ASYNC\<close>, \<open>reg\<close> the
  registry \<open>self._tasks\<close>, and the first argument a \<open>Task\<close> (\<open>Inl\<close>) or a name (\<open>Inr\<close>).
  \<open>args\<close> and \<open>kwargs\<close> default to \<open>None\<close>, which cannot be unpacked.
\<close>

definition run_task ::
  "bool \<Rightarrow> env \<Rightarrow> (string \<rightharpoonup> TaskProxy) \<Rightarrow> Task + string \<Rightarrow> args option \<Rightarrow> kwargs option
    \<Rightarrow> run_result" where
  "run_task run_async e reg target a k =
     (let (task, name, a', k') =
            (case target of
               Inl t \<Rightarrow> (Some t, task_name t, Some [], Some [])
             | Inr n \<Rightarrow> (None, n, a, k))
      in case reg name of
           None \<Rightarrow> \<lparr>raised = Some (KeyError name), trace = [], submitted = []\<rparr>
         | Some proxy_task \<Rightarrow>
             (case (a', k') of
                (Some a'', Some k'') \<Rightarrow>
                  if run_async then PoolRunner_run proxy_task task a'' k''
                  else (case bg_runner e proxy_task task a'' k'' of
                          (r, tr) \<Rightarrow> \<lparr>raised = r, trace = tr, submitted = []\<rparr>)
              | _ \<Rightarrow> \<lparr>raised = Some TypeError, trace = [], submitted = []\<rparr>))"

section \<open>DBTaskRunner: claiming and running the next task\<close>

text \<open>
  The two operations of \<open>models.py\<close> that \<open>get_task_to_run\<close> calls, over any state \<open>'s\<close> of
  the store: \<open>Task.objects.find_available(queue)\<close>, and \<open>task.lock(worker_name)\<close>, which
  returns the locked task or \<open>None\<close>. Both may raise.
\<close>

record 's models =
  find_available :: "string option \<Rightarrow> 's \<Rightarrow> exc + Task list"
  lock :: "Task \<Rightarrow> string \<Rightarrow> 's \<Rightarrow> (exc + Task option) \<times> 's"

text \<open>The \<open>for\<close> loop over the candidates.\<close>

fun lock_first ::
  "'s models \<Rightarrow> string \<Rightarrow> Task list \<Rightarrow> 's \<Rightarrow> (exc + Task option) \<times> 's" where
  "lock_first m worker_name [] s = (Inr None, s)"
| "lock_first m worker_name (task # rest) s =
     (case lock m task worker_name s of
        (Inl x, s') \<Rightarrow> (Inl x, s')
      | (Inr (Some locked_task), s') \<Rightarrow> (Inr (Some locked_task), s')
      | (Inr None, s') \<Rightarrow> lock_first m worker_name rest s')"

text \<open>The \<open>try\<close> block of \<open>get_task_to_run\<close>.\<close>

definition get_task_to_run_try ::
  "'s models \<Rightarrow> string \<Rightarrow> (string \<rightharpoonup> TaskProxy) \<Rightarrow> string option \<Rightarrow> 's
    \<Rightarrow> (exc + Task option) \<times> 's" where
  "get_task_to_run_try m worker_name reg q s =
     (case find_available m q s of
        Inl x \<Rightarrow> (Inl x, s)
      | Inr found \<Rightarrow>
          lock_first m worker_name
            (take 5 (filter (\<lambda>task. reg (task_name task) \<noteq> None) found)) s)"

text \<open>
  \<open>get_task_to_run\<close>: its result, the state of the store, and what it logged. After the
  handler the function ends without a \<open>return\<close>, which gives \<open>None\<close>.
\<close>

definition get_task_to_run ::
  "'s models \<Rightarrow> string \<Rightarrow> (string \<rightharpoonup> TaskProxy) \<Rightarrow> string option \<Rightarrow> 's
    \<Rightarrow> (exc + Task option) \<times> 's \<times> action list" where
  "get_task_to_run m worker_name reg q s =
     (case get_task_to_run_try m worker_name reg q s of
        (Inl x, s') \<Rightarrow>
          if x = OperationalError
          then (Inr None, s', [Log ''Failed to retrieve tasks. Database unreachable.''])
          else (Inl x, s', [])
      | (Inr r, s') \<Rightarrow> (Inr r, s', []))"

text \<open>\<open>DBTaskRunner.run_task\<close>: log, then \<open>tasks.run_task(task)\<close>.\<close>

definition DBTaskRunner_run_task ::
  "bool \<Rightarrow> env \<Rightarrow> (string \<rightharpoonup> TaskProxy) \<Rightarrow> Task \<Rightarrow> run_result" where
  "DBTaskRunner_run_task run_async e reg task =
     (let r = run_task run_async e reg (Inl task) None None
      in r\<lparr>trace := Log ''Running'' # trace r\<rparr>)"

text \<open>
  \<open>run_next_task\<close>: the value returned (\<open>None\<close> when an exception leaves the call, which
  \<open>raised\<close> then holds), the state of the store, and what the call did.
\<close>

definition run_next_task ::
  "bool \<Rightarrow> env \<Rightarrow> 's models \<Rightarrow> string \<Rightarrow> (string \<rightharpoonup> TaskProxy) \<Rightarrow> string option \<Rightarrow> 's
    \<Rightarrow> bool option \<times> 's \<times> run_result" where
  "run_next_task run_async e m worker_name reg q s =
     (case get_task_to_run m worker_name reg q s of
        (Inl x, s', lg) \<Rightarrow> (None, s', \<lparr>raised = Some x, trace = lg, submitted = []\<rparr>)
      | (Inr None, s', lg) \<Rightarrow> (Some False, s', \<lparr>raised = None, trace = lg, submitted = []\<rparr>)
      | (Inr (Some task), s', lg) \<Rightarrow>
          (let r = DBTaskRunner_run_task run_async e reg task
           in (if raised r = None then Some True else None, s', r\<lparr>trace := lg @ trace r\<rparr>)))"

section \<open>The words of the specification\<close>

text \<open>
  The normalization of section 4.1, as the specification words it: an absolute timestamp
  is passed through, an integer is an offset in seconds and a duration an offset, both
  from the time of evaluation.
\<close>

fun normalized :: "datetime \<Rightarrow> run_at_value \<Rightarrow> datetime" where
  "normalized now (RDatetime t) = t"
| "normalized now (RInt n) = now + timedelta_seconds n"
| "normalized now (RTimedelta d) = now + d"

text \<open>
  The defaulting of section 4.1: the override of the call when present, else the default
  the unit was registered with when present, else the global default.
\<close>

fun first_present :: "'a option \<Rightarrow> 'a option \<Rightarrow> 'a \<Rightarrow> 'a" where
  "first_present (Some v) registered global = v"
| "first_present None (Some v) global = v"
| "first_present None None global = global"

text \<open>The calls of the callable in a trace, and the outcome events in it.\<close>

fun calls :: "action list \<Rightarrow> (args \<times> kwargs) list" where
  "calls [] = []"
| "calls (Call a k # tr) = (a, k) # calls tr"
| "calls (_ # tr) = calls tr"

fun outcome_signals :: "action list \<Rightarrow> signal list" where
  "outcome_signals [] = []"
| "outcome_signals (Send (task_successful t) # tr) = task_successful t # outcome_signals tr"
| "outcome_signals (Send (task_error x t) # tr) = task_error x t # outcome_signals tr"
| "outcome_signals (_ # tr) = outcome_signals tr"

text \<open>
  What the \<open>try\<close> block can add to a trace when it ends with \<open>r\<close> and leaves \<open>task\<close>:
  neither \<open>task_started\<close> nor \<open>task_finished\<close>; no outcome event without a task; with a
  task, \<open>task_successful\<close> when the block ends normally, and when it raises either nothing
  or \<open>task_successful\<close> with a raise in what comes after it.
\<close>

definition try_ok :: "env \<Rightarrow> exc option \<Rightarrow> Task option \<Rightarrow> action list \<Rightarrow> bool" where
  "try_ok e r task ext \<longleftrightarrow>
     Send task_started \<notin> set ext \<and> Send task_finished \<notin> set ext
     \<and> (case task of
          None \<Rightarrow> outcome_signals ext = []
        | Some t \<Rightarrow>
            (r = None \<and> outcome_signals ext = [task_successful t])
            \<or> (r \<noteq> None \<and> outcome_signals ext = [])
            \<or> (r \<noteq> None \<and> outcome_signals ext = [task_successful t]
                \<and> (fails e (Send (task_successful t)) \<noteq> None
                    \<or> fails e (CreateRepetition t) \<noteq> None
                    \<or> fails e (Delete t) \<noteq> None
                    \<or> fails e (Log ''Ran task and deleting'') \<noteq> None)))"

text \<open>
  The task record a run works on: the \<open>Task\<close> it was given, or the first row that the
  lookup by name and arguments finds (in the queue of the proxy, when it has one).
\<close>

definition task_record :: "env \<Rightarrow> TaskProxy \<Rightarrow> Task option \<Rightarrow> args \<Rightarrow> kwargs \<Rightarrow> Task option" where
  "task_record e proxy_task task a k =
     (case task of
        Some t \<Rightarrow> Some t
      | None \<Rightarrow>
          (case get_task e (proxy_name proxy_task) a k of
             Inl x \<Rightarrow> None
           | Inr task_qs \<Rightarrow>
               (case (if truthy_queue (proxy_queue proxy_task)
                      then filter (\<lambda>t. queue t = proxy_queue proxy_task) task_qs
                      else task_qs) of
                  [] \<Rightarrow> None
                | t # _ \<Rightarrow> Some t)))"

text \<open>The pending rows of one fingerprint.\<close>

definition pending :: "string \<Rightarrow> world \<Rightarrow> Task list" where
  "pending h w = filter (\<lambda>t. task_hash t = h) (tasks w)"

section \<open>Sample data\<close>

text \<open>Concrete inputs on which the theorems below are run.\<close>

definition sample_hash :: "string \<Rightarrow> args \<Rightarrow> kwargs \<Rightarrow> string" where
  "sample_hash n a k = n"

definition empty_world :: world where
  "empty_world = \<lparr>tasks = [], next_id = 0, sent = []\<rparr>"

definition sample_call :: "int \<Rightarrow> datetime \<Rightarrow> int \<Rightarrow> sched_call" where
  "sample_call act r p =
     (default_call ''mail'' [PInt 7] [])\<lparr>sc_action := act, sc_run_at := Some r, sc_priority := p\<rparr>"

definition sample_task :: Task where
  "sample_task =
     \<lparr>task_id = Some 0, task_name = ''mail'', task_params = ([PInt 7], []),
      task_hash = ''mail'', priority = 0, run_at = 100, queue = None, verbose_name = None,
      creator = None, repeat = None, repeat_until = None, locked_by = None,
      locked_at = None\<rparr>"

definition one_row_world :: world where
  "one_row_world = \<lparr>tasks = [sample_task], next_id = 1, sent = [task_created sample_task]\<rparr>"

definition second_row :: Task where
  "second_row = sample_task\<lparr>task_id := Some 1, priority := 5, run_at := 200\<rparr>"

definition two_row_world :: world where
  "two_row_world =
     \<lparr>tasks = [sample_task, sample_task\<lparr>task_id := Some 1\<rparr>], next_id = 2,
      sent = [task_created sample_task, task_created (sample_task\<lparr>task_id := Some 1\<rparr>)]\<rparr>"

definition returns_normally :: "args \<Rightarrow> kwargs \<Rightarrow> exc option" where
  "returns_normally a k = None"

definition sample_proxy :: TaskProxy where
  "sample_proxy = TaskProxy_init ''mail'' (Some returns_normally) (AInt 60) None False"

definition raises_error :: "args \<Rightarrow> kwargs \<Rightarrow> exc option" where
  "raises_error a k = Some (OtherException ''boom'')"

definition failing_proxy :: TaskProxy where
  "failing_proxy = TaskProxy_init ''mail'' (Some raises_error) ANone None False"

definition sample_registry :: "string \<rightharpoonup> TaskProxy" where
  "sample_registry = [''mail'' \<mapsto> sample_proxy]"

definition stored_params :: "Task \<Rightarrow> exc + (args \<times> kwargs)" where
  "stored_params t = Inr (task_params t)"

definition no_rows :: "string \<Rightarrow> args \<Rightarrow> kwargs \<Rightarrow> exc + Task list" where
  "no_rows n a k = Inr []"

definition nothing_fails :: "action \<Rightarrow> exc option" where
  "nothing_fails a = None"

definition sample_env :: env where
  "sample_env = \<lparr>params = stored_params, get_task = no_rows, fails = nothing_fails\<rparr>"

fun reschedule_fails :: "action \<Rightarrow> exc option" where
  "reschedule_fails (Reschedule t x) = Some (OtherException ''store'')"
| "reschedule_fails _ = None"

fun delete_fails :: "action \<Rightarrow> exc option" where
  "delete_fails (Delete t) = Some (OtherException ''store'')"
| "delete_fails _ = None"

definition env_reschedule_fails :: env where
  "env_reschedule_fails =
     \<lparr>params = stored_params, get_task = no_rows, fails = reschedule_fails\<rparr>"

definition env_delete_fails :: env where
  "env_delete_fails = \<lparr>params = stored_params, get_task = no_rows, fails = delete_fails\<rparr>"

definition interrupted :: "args \<Rightarrow> kwargs \<Rightarrow> exc option" where
  "interrupted a k = Some (NonException ''KeyboardInterrupt'')"

definition interrupted_proxy :: TaskProxy where
  "interrupted_proxy = TaskProxy_init ''mail'' (Some interrupted) ANone None False"

definition empty_registry :: "string \<rightharpoonup> TaskProxy" where
  "empty_registry = Map.empty"

definition all_available :: "string option \<Rightarrow> unit \<Rightarrow> exc + Task list" where
  "all_available q s = Inr [sample_task]"

definition lock_succeeds :: "Task \<Rightarrow> string \<Rightarrow> unit \<Rightarrow> (exc + Task option) \<times> unit" where
  "lock_succeeds t worker_name s = (Inr (Some (t\<lparr>locked_by := Some worker_name\<rparr>)), s)"

definition sample_models :: "unit models" where
  "sample_models = \<lparr>find_available = all_available, lock = lock_succeeds\<rparr>"

definition none_available :: "string option \<Rightarrow> unit \<Rightarrow> exc + Task list" where
  "none_available q s = Inr []"

definition idle_models :: "unit models" where
  "idle_models = \<lparr>find_available = none_available, lock = lock_succeeds\<rparr>"

definition unreachable :: "string option \<Rightarrow> unit \<Rightarrow> exc + Task list" where
  "unreachable q s = Inl OperationalError"

definition lock_unreachable :: "Task \<Rightarrow> string \<Rightarrow> unit \<Rightarrow> (exc + Task option) \<times> unit" where
  "lock_unreachable t worker_name s = (Inl OperationalError, s)"

definition down_models :: "unit models" where
  "down_models = \<lparr>find_available = unreachable, lock = lock_succeeds\<rparr>"

definition lock_down_models :: "unit models" where
  "lock_down_models = \<lparr>find_available = all_available, lock = lock_unreachable\<rparr>"

section \<open>Schedule normalization and defaulting\<close>

lemma run_at_normalized:
  "TaskSchedule_run_at now ts
     = (case priv_run_at ts of None \<Rightarrow> now | Some v \<Rightarrow> normalized now v)"
  by (cases "priv_run_at ts";
      simp add: TaskSchedule_run_at_def timedelta_seconds_def split: run_at_value.splits)

text \<open>
  \<open>create\<close> tests its argument with \<open>if schedule:\<close>, so an argument that Python counts
  false (the integer 0, the empty duration, a dict without entries) gives the schedule in
  which nothing is set, as \<open>None\<close> does.
\<close>

lemma create_falsy:
  "TaskSchedule_create (AInt 0) = TaskSchedule_create ANone"
  "TaskSchedule_create (ATimedelta 0) = TaskSchedule_create ANone"
  "TaskSchedule_create (ADict None None None) = TaskSchedule_create ANone"
  by simp_all

text \<open>
  Claim C8. The \<open>run_at\<close> of a schedule is normalized when it is read: a \<open>datetime\<close> is
  passed through; an integer \<open>n\<close> gives the clock plus \<open>n\<close> seconds and a \<open>timedelta\<close>
  the clock plus that duration; no \<open>run_at\<close> gives the clock itself. The clock is the one
  of the schedule call: a proxy keeps the schedule it was registered with as it was given,
  and \<open>__call__\<close> normalizes it at its own clock reading \<open>now\<close>.
\<close>

theorem run_at_normalization:
  "TaskSchedule_run_at now (TaskSchedule_create (ADatetime t)) = t
   \<and> TaskSchedule_run_at now (TaskSchedule_create (AInt n)) = now + timedelta_seconds n
   \<and> TaskSchedule_run_at now (TaskSchedule_create (ATimedelta d)) = now + d
   \<and> TaskSchedule_run_at now (TaskSchedule_create ANone) = now
   \<and> TaskSchedule_run_at now ts
       = (case priv_run_at ts of None \<Rightarrow> now | Some v \<Rightarrow> normalized now v)
   \<and> sc_run_at (TaskProxy_call_args now (TaskProxy_init nm fn reg q rm) a
        (no_kwargs\<lparr>kw_rest := k\<rparr>))
       = Some (TaskSchedule_run_at now (TaskSchedule_create reg))"
  by (intro conjI)
     (simp_all add: run_at_normalized timedelta_seconds_def TaskProxy_call_args_def
        TaskProxy_init_def no_kwargs_def merge_def Let_def)

theorem run_at_normalization_witness:
  "TaskSchedule_run_at 1000 (TaskSchedule_create (ADatetime 5)) = 5
   \<and> TaskSchedule_run_at 1000 (TaskSchedule_create (AInt 60)) = 60001000
   \<and> TaskSchedule_run_at 1000 (TaskSchedule_create (ATimedelta 250)) = 1250
   \<and> TaskSchedule_run_at 1000 (TaskSchedule_create ANone) = 1000
   \<and> sc_run_at (TaskProxy_call_args 1000 sample_proxy [] no_kwargs) = Some 60001000"
  using run_at_normalization [of 1000 5 60 250 "TaskSchedule_create ANone" "''mail''"
      "Some returns_normally" "AInt 60" None False "[]" "[]"]
  by (simp add: timedelta_seconds_def sample_proxy_def no_kwargs_def)

text \<open>
  What a call passes to the scheduler is first-present over the schedule built from the
  \<open>schedule\<close> argument of the call, the schedule the unit was registered with, and the
  global default (the clock, 0, \<open>SCHEDULE\<close>), with a \<open>priority\<close> keyword of the call
  on top. \<open>merge\<close> builds a new schedule from its two arguments and reads nothing else.
\<close>

lemma merge_precedence:
  "sc_priority (TaskProxy_call_args now self a kw)
     = (case kw_priority kw of
          Some p \<Rightarrow> p
        | None \<Rightarrow> first_present (priv_priority (TaskSchedule_create (kw_schedule kw)))
                    (priv_priority (proxy_schedule self)) 0)
   \<and> sc_action (TaskProxy_call_args now self a kw)
       = first_present (priv_action (TaskSchedule_create (kw_schedule kw)))
           (priv_action (proxy_schedule self)) SCHEDULE
   \<and> sc_run_at (TaskProxy_call_args now self a kw)
       = Some (first_present
           (map_option (normalized now) (priv_run_at (TaskSchedule_create (kw_schedule kw))))
           (map_option (normalized now) (priv_run_at (proxy_schedule self))) now)
   \<and> priv_run_at (merge x y)
       = (case priv_run_at x of Some v \<Rightarrow> Some v | None \<Rightarrow> priv_run_at y)
   \<and> priv_priority (merge x y)
       = (case priv_priority x of Some v \<Rightarrow> Some v | None \<Rightarrow> priv_priority y)
   \<and> priv_action (merge x y)
       = (case priv_action x of Some v \<Rightarrow> Some v | None \<Rightarrow> priv_action y)"
  apply (cases "priv_priority (TaskSchedule_create (kw_schedule kw))";
         cases "priv_priority (proxy_schedule self)";
         cases "priv_action (TaskSchedule_create (kw_schedule kw))";
         cases "priv_action (proxy_schedule self)";
         cases "priv_run_at (TaskSchedule_create (kw_schedule kw))";
         cases "priv_run_at (proxy_schedule self)")
  apply (simp_all add: TaskProxy_call_args_def Let_def merge_def run_at_normalized
           TaskSchedule_priority_def TaskSchedule_action_def SCHEDULE_def
         split: option.splits)
  done

text \<open>
  Claim C9 holds of \<open>merge\<close>, and the code breaks it in \<open>TaskSchedule.create\<close>: a unit
  registered with a delay of 60 seconds and called at clock 1000 with \<open>schedule=0\<close>, or
  with the empty duration, is scheduled at the registered delay, not at the clock: the
  override of the call is dropped. The same override written as a dict entry or as a
  \<open>TaskSchedule\<close> wins.
\<close>

theorem bare_zero_schedule_dropped:
  "sc_run_at (TaskProxy_call_args 1000 sample_proxy [] (no_kwargs\<lparr>kw_schedule := AInt 0\<rparr>))
     = Some 60001000
   \<and> sc_run_at (TaskProxy_call_args 1000 sample_proxy []
        (no_kwargs\<lparr>kw_schedule := ATimedelta 0\<rparr>)) = Some 60001000
   \<and> sc_run_at (TaskProxy_call_args 1000 sample_proxy []
        (no_kwargs\<lparr>kw_schedule := ADict (Some (RInt 0)) None None\<rparr>)) = Some 1000
   \<and> sc_run_at (TaskProxy_call_args 1000 sample_proxy []
        (no_kwargs\<lparr>kw_schedule := ATaskSchedule
           \<lparr>priv_run_at = Some (RInt 0), priv_priority = None, priv_action = None\<rparr>\<rparr>))
       = Some 1000"
  by (simp add: TaskProxy_call_args_def merge_def TaskSchedule_run_at_def sample_proxy_def
        TaskProxy_init_def no_kwargs_def timedelta_seconds_def Let_def)


section \<open>Scheduling with a dedup action\<close>

lemma new_task_fst:
  "fst (new_task hf ttl now c w) =
     \<lparr>task_id = None, task_name = sc_task_name c,
      task_params = (sc_args c, sc_kwargs c),
      task_hash = fingerprint hf c,
      priority = sc_priority c,
      run_at = (case sc_run_at c of None \<Rightarrow> now | Some r \<Rightarrow> r),
      queue = sc_queue c, verbose_name = sc_verbose_name c, creator = sc_creator c,
      repeat = sc_repeat c, repeat_until = sc_repeat_until c,
      locked_by = None, locked_at = None\<rparr>"
  by (simp add: new_task_def Let_def)

lemma new_task_snd:
  "snd (new_task hf ttl now c w) =
     (if sc_remove_existing_tasks c
      then w\<lparr>tasks := filter (\<lambda>t. \<not> (task_hash t = fingerprint hf c
                                       \<and> unlocked ttl now t)) (tasks w)\<rparr>
      else w)"
  by (simp add: new_task_def Let_def)

lemma pending_new_task_fresh:
  "pending (fingerprint hf c) w = [] \<Longrightarrow>
   snd (new_task hf ttl now c w) = w"
  unfolding new_task_snd pending_def
  by (cases w) (auto simp: filter_empty_conv filter_id_conv)

lemma schedule_no_match:
  assumes "filter (existing ttl now c (fst (new_task hf ttl now c w)))
             (tasks (snd (new_task hf ttl now c w))) = []"
  shows "schedule hf ttl now c w
           = save_and_send (fst (new_task hf ttl now c w)) (snd (new_task hf ttl now c w))"
  using assms by (simp add: schedule_def update_def split_beta Let_def)

lemma schedule_reschedule_match:
  assumes "sc_action c = RESCHEDULE_EXISTING" "sc_run_at c = Some r"
    and "filter (existing ttl now c (fst (new_task hf ttl now c w)))
             (tasks (snd (new_task hf ttl now c w))) \<noteq> []"
  shows "schedule hf ttl now c w
           = Inr (None, (snd (new_task hf ttl now c w))
               \<lparr>tasks := map (\<lambda>t. if existing ttl now c (fst (new_task hf ttl now c w)) t
                                   then t\<lparr>run_at := r, priority := sc_priority c\<rparr> else t)
                              (tasks (snd (new_task hf ttl now c w)))\<rparr>)"
  using assms
  by (simp add: schedule_def update_def split_beta Let_def SCHEDULE_def RESCHEDULE_EXISTING_def)

lemma schedule_check_match:
  assumes "sc_action c = CHECK_EXISTING"
    and "filter (existing ttl now c (fst (new_task hf ttl now c w)))
             (tasks (snd (new_task hf ttl now c w))) \<noteq> []"
  shows "schedule hf ttl now c w = Inr (None, snd (new_task hf ttl now c w))"
  using assms
  by (simp add: schedule_def split_beta Let_def SCHEDULE_def RESCHEDULE_EXISTING_def CHECK_EXISTING_def)


lemma first_call_fresh:
  assumes fresh: "pending (fingerprint hf c) w = []"
  shows "schedule hf ttl now c w
     = Inr (Some ((fst (new_task hf ttl now c w))\<lparr>task_id := Some (next_id w)\<rparr>),
            w\<lparr>tasks := tasks w @ [(fst (new_task hf ttl now c w))\<lparr>task_id := Some (next_id w)\<rparr>],
              next_id := Suc (next_id w),
              sent := sent w @ [task_created ((fst (new_task hf ttl now c w))\<lparr>task_id := Some (next_id w)\<rparr>)]\<rparr>)"
proof -
  have w1: "snd (new_task hf ttl now c w) = w"
    using fresh by (rule pending_new_task_fresh)
  have "filter (existing ttl now c (fst (new_task hf ttl now c w))) (tasks w) = []"
    using fresh by (auto simp: pending_def filter_empty_conv existing_def new_task_fst)
  then have "schedule hf ttl now c w = save_and_send (fst (new_task hf ttl now c w)) w"
    using schedule_no_match [of ttl now c hf w] w1 by simp
  then show ?thesis by (simp add: save_and_send_def save_def Let_def)
qed


lemma existing_iff_hash:
  assumes one: "pending h w = [t]"
    and unl: "locked_by t = None"
    and q: "truthy_queue (sc_queue c) \<longrightarrow> queue t = sc_queue c"
    and x: "x \<in> set (tasks w)"
    and h: "task_hash task = h"
  shows "existing ttl now c task x \<longleftrightarrow> task_hash x = h"
proof -
  have "set (pending h w) = {t}"
    using one by simp
  then have "task_hash x = h \<Longrightarrow> x = t"
    using x by (auto simp: pending_def)
  then show ?thesis
    using unl q h by (auto simp: existing_def unlocked_def)
qed

lemma removed_when_unlocked:
  assumes one: "pending h w = [t]" and unl: "locked_by t = None"
  shows "filter (\<lambda>x. task_hash x = h)
           (filter (\<lambda>x. \<not> (task_hash x = h \<and> unlocked ttl now x)) (tasks w)) = []"
proof -
  have "set (pending h w) = {t}" using one by simp
  then have "\<And>x. x \<in> set (tasks w) \<Longrightarrow> task_hash x = h \<Longrightarrow> x = t"
    by (auto simp: pending_def)
  then show ?thesis
    using unl by (auto simp: filter_empty_conv unlocked_def)
qed

lemma reschedule_one_match:
  assumes act: "sc_action c = RESCHEDULE_EXISTING" and r: "sc_run_at c = Some r"
    and one: "pending (fingerprint hf c) w = [t]"
    and unl: "locked_by t = None"
    and q: "truthy_queue (sc_queue c) \<longrightarrow> queue t = sc_queue c"
    and rm: "\<not> sc_remove_existing_tasks c"
  shows "schedule hf ttl now c w
     = Inr (None, w\<lparr>tasks := map (\<lambda>x. if task_hash x = fingerprint hf c
                                       then x\<lparr>run_at := r, priority := sc_priority c\<rparr> else x)
                                (tasks w)\<rparr>)"
proof -
  let ?h = "fingerprint hf c"
  let ?task = "fst (new_task hf ttl now c w)"
  have w1: "snd (new_task hf ttl now c w) = w"
    using rm by (simp add: new_task_snd)
  have iff: "\<And>x. x \<in> set (tasks w) \<Longrightarrow> existing ttl now c ?task x \<longleftrightarrow> task_hash x = ?h"
    using existing_iff_hash [OF one unl q] by (simp add: new_task_fst)
  have "filter (existing ttl now c ?task) (tasks w) = pending ?h w"
    unfolding pending_def using iff by (auto intro: filter_cong)
  then have ne: "filter (existing ttl now c ?task) (tasks (snd (new_task hf ttl now c w))) \<noteq> []"
    using one w1 by simp
  have "map (\<lambda>x. if existing ttl now c ?task x then x\<lparr>run_at := r, priority := sc_priority c\<rparr> else x) (tasks w)
      = map (\<lambda>x. if task_hash x = ?h then x\<lparr>run_at := r, priority := sc_priority c\<rparr> else x) (tasks w)"
    using iff by (auto intro: map_cong)
  then show ?thesis
    using schedule_reschedule_match [OF act r ne] w1 by simp
qed

lemma pending_after_update:
  "pending h (w\<lparr>tasks := map (\<lambda>x. if task_hash x = h then x\<lparr>run_at := r, priority := p\<rparr> else x)
                            (tasks w)\<rparr>)
     = map (\<lambda>x. x\<lparr>run_at := r, priority := p\<rparr>) (pending h w)"
  by (simp add: pending_def filter_map comp_def)


lemma pending_save_and_send:
  "\<exists>t' w'. save_and_send task w = Inr (Some t', w')
      \<and> t' = task\<lparr>task_id := Some (next_id w)\<rparr>
      \<and> tasks w' = tasks w @ [t'] \<and> next_id w' = Suc (next_id w)
      \<and> sent w' = sent w @ [task_created t']"
  by (simp add: save_and_send_def save_def Let_def)

lemma check_one_match:
  assumes act: "sc_action c = CHECK_EXISTING"
    and one: "pending (fingerprint hf c) w = [t]"
    and unl: "locked_by t = None"
    and q: "truthy_queue (sc_queue c) \<longrightarrow> queue t = sc_queue c"
    and rm: "\<not> sc_remove_existing_tasks c"
  shows "schedule hf ttl now c w = Inr (None, w)"
proof -
  let ?h = "fingerprint hf c"
  let ?task = "fst (new_task hf ttl now c w)"
  have w1: "snd (new_task hf ttl now c w) = w"
    using rm by (simp add: new_task_snd)
  have iff: "\<And>x. x \<in> set (tasks w) \<Longrightarrow> existing ttl now c ?task x \<longleftrightarrow> task_hash x = ?h"
    using existing_iff_hash [OF one unl q] by (simp add: new_task_fst)
  have "filter (existing ttl now c ?task) (tasks w) = pending ?h w"
    unfolding pending_def using iff by (auto intro: filter_cong)
  then have ne: "filter (existing ttl now c ?task) (tasks (snd (new_task hf ttl now c w))) \<noteq> []"
    using one w1 by simp
  show ?thesis
    using schedule_check_match [OF act ne] w1 by simp
qed

lemma after_first_call:
  assumes fresh: "pending (fingerprint hf c) w = []"
  shows "\<exists>t1 w1. schedule hf ttl now c w = Inr (Some t1, w1)
           \<and> pending (fingerprint hf c) w1 = [t1]
           \<and> locked_by t1 = None \<and> queue t1 = sc_queue c"
  using fresh
  by (simp add: first_call_fresh [OF fresh] pending_def new_task_fst)

lemma remove_then_insert_row:
  assumes rm: "sc_remove_existing_tasks c"
    and one: "pending (fingerprint hf c) w = [t]"
    and unl: "locked_by t = None"
  shows "\<exists>t' w'. schedule hf ttl now c w = Inr (Some t', w')
           \<and> pending (fingerprint hf c) w' = [t']
           \<and> locked_by t' = None \<and> queue t' = sc_queue c
           \<and> run_at t' = (case sc_run_at c of None \<Rightarrow> now | Some r \<Rightarrow> r)
           \<and> priority t' = sc_priority c"
proof -
  let ?h = "fingerprint hf c"
  let ?task = "fst (new_task hf ttl now c w)"
  let ?w1 = "snd (new_task hf ttl now c w)"
  have gone: "pending ?h ?w1 = []"
    using removed_when_unlocked [OF one unl, of ttl now] rm
    by (simp add: new_task_snd pending_def)
  then have "filter (existing ttl now c ?task) (tasks ?w1) = []"
    by (auto simp: pending_def filter_empty_conv existing_def new_task_fst)
  then have s: "schedule hf ttl now c w = save_and_send ?task ?w1"
    by (rule schedule_no_match)
  obtain t' w' where sv: "save_and_send ?task ?w1 = Inr (Some t', w')"
    and t': "t' = ?task\<lparr>task_id := Some (next_id ?w1)\<rparr>" and w': "tasks w' = tasks ?w1 @ [t']"
    using pending_save_and_send [of ?task ?w1] by blast
  have p: "pending ?h w' = [t']"
    using gone w' t' by (simp add: pending_def new_task_fst)
  have row: "locked_by t' = None" "queue t' = sc_queue c"
    "run_at t' = (case sc_run_at c of None \<Rightarrow> now | Some r \<Rightarrow> r)" "priority t' = sc_priority c"
    using t' by (simp_all add: new_task_fst)
  show ?thesis using s sv p row by simp
qed

text \<open>
  A \<open>RESCHEDULE_EXISTING\<close> call on a table with one row of its fingerprint, unlocked and
  in its queue, leaves one such row, with the \<open>run_at\<close> and the priority of the call.
\<close>

lemma reschedule_on_one_row:
  assumes act: "sc_action c = RESCHEDULE_EXISTING"
    and one: "pending (fingerprint hf c) w = [t]"
    and unl: "locked_by t = None"
    and q: "truthy_queue (sc_queue c) \<longrightarrow> queue t = sc_queue c"
    and given: "sc_remove_existing_tasks c \<or> sc_run_at c \<noteq> None"
  shows "\<exists>res w' t'. schedule hf ttl now c w = Inr (res, w')
           \<and> pending (fingerprint hf c) w' = [t']
           \<and> locked_by t' = None \<and> (truthy_queue (sc_queue c) \<longrightarrow> queue t' = sc_queue c)
           \<and> run_at t' = (case sc_run_at c of None \<Rightarrow> now | Some r \<Rightarrow> r)
           \<and> priority t' = sc_priority c"
proof (cases "sc_remove_existing_tasks c")
  case True
  from remove_then_insert_row [OF True one unl, of ttl now] show ?thesis by blast
next
  case False
  then obtain r where r: "sc_run_at c = Some r" using given by auto
  let ?w' = "w\<lparr>tasks := map (\<lambda>x. if task_hash x = fingerprint hf c
                                    then x\<lparr>run_at := r, priority := sc_priority c\<rparr> else x)
                             (tasks w)\<rparr>"
  have s: "schedule hf ttl now c w = Inr (None, ?w')"
    using reschedule_one_match [OF act r one unl q False] .
  have p: "pending (fingerprint hf c) ?w' = [t\<lparr>run_at := r, priority := sc_priority c\<rparr>]"
    using one by (simp add: pending_after_update)
  show ?thesis
    using s p unl q r by simp
qed

lemma check_on_one:
  assumes act: "sc_action c = CHECK_EXISTING"
    and one: "pending (fingerprint hf c) w = [t]"
    and unl: "locked_by t = None"
    and q: "truthy_queue (sc_queue c) \<longrightarrow> queue t = sc_queue c"
  shows "\<exists>res w' t'. schedule hf ttl now c w = Inr (res, w')
           \<and> pending (fingerprint hf c) w' = [t']
           \<and> locked_by t' = None \<and> (truthy_queue (sc_queue c) \<longrightarrow> queue t' = sc_queue c)"
proof (cases "sc_remove_existing_tasks c")
  case True
  from remove_then_insert_row [OF True one unl, of ttl now] show ?thesis by blast
next
  case False
  have "schedule hf ttl now c w = Inr (None, w)"
    using check_one_match [OF act one unl q False] .
  then show ?thesis using one unl q by simp
qed

lemma after_first_call_row:
  assumes fresh: "pending (fingerprint hf c) w = []"
  shows "\<exists>res w' t'. schedule hf ttl now c w = Inr (res, w')
           \<and> pending (fingerprint hf c) w' = [t']
           \<and> locked_by t' = None \<and> (truthy_queue (sc_queue c) \<longrightarrow> queue t' = sc_queue c)"
  using after_first_call [OF fresh, of ttl now] by blast

lemma first_call_sample:
  "schedule sample_hash 0 10 (sample_call RESCHEDULE_EXISTING 100 0) empty_world
     = Inr (Some sample_task, one_row_world)"
  "schedule sample_hash 0 10 (sample_call CHECK_EXISTING 100 0) empty_world
     = Inr (Some sample_task, one_row_world)"
  by (simp_all add: schedule_def new_task_def fingerprint_def update_def save_and_send_def
        save_def sample_hash_def sample_call_def default_call_def empty_world_def
        one_row_world_def sample_task_def existing_def unlocked_def
        SCHEDULE_def RESCHEDULE_EXISTING_def CHECK_EXISTING_def Let_def)

lemma second_call_removes:
  "schedule sample_hash 0 20
       ((sample_call RESCHEDULE_EXISTING 200 5)\<lparr>sc_remove_existing_tasks := True\<rparr>)
       one_row_world
     = Inr (Some second_row,
            \<lparr>tasks = [second_row], next_id = 2,
             sent = [task_created sample_task, task_created second_row]\<rparr>)"
  "schedule sample_hash 0 20
       ((sample_call CHECK_EXISTING 200 5)\<lparr>sc_remove_existing_tasks := True\<rparr>)
       one_row_world
     = Inr (Some second_row,
            \<lparr>tasks = [second_row], next_id = 2,
             sent = [task_created sample_task, task_created second_row]\<rparr>)"
  by (simp_all add: schedule_def new_task_def fingerprint_def update_def save_and_send_def
        save_def sample_hash_def sample_call_def default_call_def second_row_def
        one_row_world_def sample_task_def existing_def unlocked_def
        SCHEDULE_def RESCHEDULE_EXISTING_def CHECK_EXISTING_def Let_def)

lemma reschedule_without_run_at:
  "schedule sample_hash 0 20
       ((default_call ''mail'' [PInt 7] [])\<lparr>sc_action := RESCHEDULE_EXISTING\<rparr>) one_row_world
     = Inl IntegrityError"
  by (simp add: schedule_def new_task_def fingerprint_def update_def
        sample_hash_def default_call_def one_row_world_def sample_task_def existing_def
        unlocked_def SCHEDULE_def RESCHEDULE_EXISTING_def CHECK_EXISTING_def Let_def)

lemma two_rows_stay_two:
  "schedule sample_hash 0 10 (sample_call RESCHEDULE_EXISTING 100 0) two_row_world
     = Inr (None, two_row_world)"
  "schedule sample_hash 0 20 (sample_call RESCHEDULE_EXISTING 200 5) two_row_world
     = Inr (None, two_row_world\<lparr>tasks := [sample_task\<lparr>priority := 5, run_at := 200\<rparr>,
                                           second_row]\<rparr>)"
  "schedule sample_hash 0 10 (sample_call CHECK_EXISTING 100 0) two_row_world
     = Inr (None, two_row_world)"
  "schedule sample_hash 0 20 (sample_call CHECK_EXISTING 200 5) two_row_world
     = Inr (None, two_row_world)"
  "length (pending ''mail'' two_row_world) = 2"
  "length (pending ''mail'' (two_row_world\<lparr>tasks := [sample_task\<lparr>priority := 5, run_at := 200\<rparr>,
                                                     second_row]\<rparr>)) = 2"
  by (simp_all add: schedule_def new_task_def fingerprint_def update_def pending_def
        sample_hash_def sample_call_def default_call_def second_row_def
        two_row_world_def sample_task_def existing_def unlocked_def
        SCHEDULE_def RESCHEDULE_EXISTING_def CHECK_EXISTING_def Let_def)

lemma sample_call_facts:
  "sc_action (sample_call act r p) = act"
  "sc_run_at (sample_call act r p) = Some r"
  "sc_priority (sample_call act r p) = p"
  "sc_queue (sample_call act r p) = None"
  "\<not> sc_remove_existing_tasks (sample_call act r p)"
  "fingerprint sample_hash (sample_call act r p) = ''mail''"
  by (simp_all add: sample_call_def default_call_def fingerprint_def sample_hash_def)

lemma sample_pending:
  "pending ''mail'' empty_world = []"
  "pending ''mail'' one_row_world = [sample_task]"
  "locked_by sample_task = None"
  by (simp_all add: pending_def empty_world_def one_row_world_def sample_task_def)

text \<open>
  Claim C1, as stated, fails, in three ways. A second call that asks to remove existing
  tasks deletes the row the first call left and inserts a new one, with a new id and a
  second \<open>task_created\<close>. A second call that supplies no \<open>run_at\<close> writes none into the
  row it finds, which the store refuses. Two calls on a table that already holds two rows
  of the fingerprint update both rows and leave two.
\<close>

theorem reschedule_existing_counterexample:
  "schedule sample_hash 0 10 (sample_call RESCHEDULE_EXISTING 100 0) empty_world
     = Inr (Some sample_task, one_row_world)
   \<and> schedule sample_hash 0 20
       ((sample_call RESCHEDULE_EXISTING 200 5)\<lparr>sc_remove_existing_tasks := True\<rparr>)
       one_row_world
     = Inr (Some second_row,
            \<lparr>tasks = [second_row], next_id = 2,
             sent = [task_created sample_task, task_created second_row]\<rparr>)
   \<and> schedule sample_hash 0 20
       ((default_call ''mail'' [PInt 7] [])\<lparr>sc_action := RESCHEDULE_EXISTING\<rparr>) one_row_world
     = Inl IntegrityError
   \<and> schedule sample_hash 0 10 (sample_call RESCHEDULE_EXISTING 100 0) two_row_world
     = Inr (None, two_row_world)
   \<and> schedule sample_hash 0 20 (sample_call RESCHEDULE_EXISTING 200 5) two_row_world
     = Inr (None, two_row_world\<lparr>tasks := [sample_task\<lparr>priority := 5, run_at := 200\<rparr>,
                                           second_row]\<rparr>)
   \<and> length (pending ''mail'' (two_row_world\<lparr>tasks := [sample_task\<lparr>priority := 5, run_at := 200\<rparr>,
                                                     second_row]\<rparr>)) = 2"
  using first_call_sample(1) second_call_removes(1) reschedule_without_run_at
    two_rows_stay_two(1,2,6)
  by blast

text \<open>
  Claim C1, amended. Two \<open>schedule\<close> calls with action \<open>RESCHEDULE_EXISTING\<close>, the same
  fingerprint and the same queue, the second supplying \<open>run_at\<close>, with nothing locked in
  between, on a table that holds no row of the fingerprint, or one row of it that is
  unlocked and in the queue of the calls (the first call then supplying \<open>run_at\<close> or
  asking to remove existing tasks): after both calls exactly one pending row has the
  fingerprint, with the \<open>run_at\<close> and the priority the second call supplied. When the
  second call does not ask to remove existing tasks, it writes the two columns of the row
  in place: it returns without a task, and the table is the one the first call left with
  only these two columns of that row changed.
\<close>

theorem reschedule_existing_in_place:
  assumes act1: "sc_action c1 = RESCHEDULE_EXISTING"
    and act2: "sc_action c2 = RESCHEDULE_EXISTING"
    and fp: "fingerprint hf c2 = fingerprint hf c1"
    and q: "sc_queue c2 = sc_queue c1"
    and r: "sc_run_at c2 = Some r2"
    and init: "pending (fingerprint hf c1) w0 = []
             \<or> (pending (fingerprint hf c1) w0 = [t0] \<and> locked_by t0 = None
                 \<and> (truthy_queue (sc_queue c1) \<longrightarrow> queue t0 = sc_queue c1)
                 \<and> (sc_remove_existing_tasks c1 \<or> sc_run_at c1 \<noteq> None))"
  shows "\<exists>res1 w1 res2 w2 t.
           schedule hf ttl now1 c1 w0 = Inr (res1, w1)
         \<and> schedule hf ttl now2 c2 w1 = Inr (res2, w2)
         \<and> pending (fingerprint hf c1) w2 = [t]
         \<and> run_at t = r2 \<and> priority t = sc_priority c2
         \<and> (\<not> sc_remove_existing_tasks c2 \<longrightarrow>
              res2 = None
            \<and> w2 = w1\<lparr>tasks := map (\<lambda>x. if task_hash x = fingerprint hf c1
                                        then x\<lparr>run_at := r2, priority := sc_priority c2\<rparr> else x)
                                  (tasks w1)\<rparr>)"
proof -
  let ?h = "fingerprint hf c1"
  have "\<exists>res1 w1 t1. schedule hf ttl now1 c1 w0 = Inr (res1, w1)
           \<and> pending ?h w1 = [t1] \<and> locked_by t1 = None
           \<and> (truthy_queue (sc_queue c1) \<longrightarrow> queue t1 = sc_queue c1)"
  proof (cases "pending ?h w0 = []")
    case True
    from after_first_call_row [OF True, of ttl now1] show ?thesis by blast
  next
    case False
    then have one: "pending ?h w0 = [t0]" and unl: "locked_by t0 = None"
      and q0: "truthy_queue (sc_queue c1) \<longrightarrow> queue t0 = sc_queue c1"
      and g: "sc_remove_existing_tasks c1 \<or> sc_run_at c1 \<noteq> None"
      using init by auto
    from reschedule_on_one_row [OF act1 one unl q0 g, of ttl now1] show ?thesis by blast
  qed
  then obtain res1 w1 t1 where s1: "schedule hf ttl now1 c1 w0 = Inr (res1, w1)"
    and one: "pending ?h w1 = [t1]" and unl: "locked_by t1 = None"
    and qt: "truthy_queue (sc_queue c1) \<longrightarrow> queue t1 = sc_queue c1"
    by blast
  have one2: "pending (fingerprint hf c2) w1 = [t1]"
    using one fp by simp
  have q2: "truthy_queue (sc_queue c2) \<longrightarrow> queue t1 = sc_queue c2"
    using q qt by simp
  have g2: "sc_remove_existing_tasks c2 \<or> sc_run_at c2 \<noteq> None"
    using r by simp
  from reschedule_on_one_row [OF act2 one2 unl q2 g2, of ttl now2]
  obtain res2 w2 t where s2: "schedule hf ttl now2 c2 w1 = Inr (res2, w2)"
    and p2: "pending ?h w2 = [t]" and v: "run_at t = r2" "priority t = sc_priority c2"
    using fp r by auto
  have "\<not> sc_remove_existing_tasks c2 \<longrightarrow>
              res2 = None
            \<and> w2 = w1\<lparr>tasks := map (\<lambda>x. if task_hash x = ?h
                                        then x\<lparr>run_at := r2, priority := sc_priority c2\<rparr> else x)
                                  (tasks w1)\<rparr>"
    using reschedule_one_match [OF act2 r one2 unl q2, of ttl now2] s2 fp by auto
  then show ?thesis using s1 s2 p2 v by blast
qed

theorem reschedule_existing_in_place_witness:
  "sc_action (sample_call RESCHEDULE_EXISTING 100 0) = RESCHEDULE_EXISTING
   \<and> sc_action (sample_call RESCHEDULE_EXISTING 200 5) = RESCHEDULE_EXISTING
   \<and> fingerprint sample_hash (sample_call RESCHEDULE_EXISTING 200 5)
       = fingerprint sample_hash (sample_call RESCHEDULE_EXISTING 100 0)
   \<and> sc_queue (sample_call RESCHEDULE_EXISTING 200 5)
       = sc_queue (sample_call RESCHEDULE_EXISTING 100 0)
   \<and> sc_run_at (sample_call RESCHEDULE_EXISTING 200 5) = Some 200
   \<and> pending (fingerprint sample_hash (sample_call RESCHEDULE_EXISTING 100 0)) empty_world = []
   \<and> pending (fingerprint sample_hash (sample_call RESCHEDULE_EXISTING 100 0)) one_row_world
       = [sample_task]
   \<and> (\<exists>w1 w2 t.
         schedule sample_hash 0 10 (sample_call RESCHEDULE_EXISTING 100 0) empty_world
           = Inr (Some sample_task, w1)
       \<and> schedule sample_hash 0 20 (sample_call RESCHEDULE_EXISTING 200 5) w1 = Inr (None, w2)
       \<and> pending ''mail'' w2 = [t] \<and> run_at t = 200 \<and> priority t = 5
       \<and> map task_id (tasks w2) = map task_id (tasks w1))
   \<and> (\<exists>w1 w2 t.
         schedule sample_hash 0 10 (sample_call RESCHEDULE_EXISTING 100 0) one_row_world
           = Inr (None, w1)
       \<and> schedule sample_hash 0 20 (sample_call RESCHEDULE_EXISTING 200 5) w1 = Inr (None, w2)
       \<and> pending ''mail'' w2 = [t] \<and> run_at t = 200 \<and> priority t = 5
       \<and> map task_id (tasks w2) = map task_id (tasks w1))"
proof -
  let ?c1 = "sample_call RESCHEDULE_EXISTING 100 0"
  let ?c2 = "sample_call RESCHEDULE_EXISTING 200 5"
  have fp: "fingerprint sample_hash ?c2 = fingerprint sample_hash ?c1"
    and q: "sc_queue ?c2 = sc_queue ?c1"
    by (simp_all add: sample_call_facts)
  have init1: "pending (fingerprint sample_hash ?c1) empty_world = []
      \<or> (pending (fingerprint sample_hash ?c1) empty_world = [sample_task]
          \<and> locked_by sample_task = None
          \<and> (truthy_queue (sc_queue ?c1) \<longrightarrow> queue sample_task = sc_queue ?c1)
          \<and> (sc_remove_existing_tasks ?c1 \<or> sc_run_at ?c1 \<noteq> None))"
    by (simp add: sample_call_facts sample_pending)
  have init2: "pending (fingerprint sample_hash ?c1) one_row_world = []
      \<or> (pending (fingerprint sample_hash ?c1) one_row_world = [sample_task]
          \<and> locked_by sample_task = None
          \<and> (truthy_queue (sc_queue ?c1) \<longrightarrow> queue sample_task = sc_queue ?c1)
          \<and> (sc_remove_existing_tasks ?c1 \<or> sc_run_at ?c1 \<noteq> None))"
    by (simp add: sample_call_facts sample_pending)
  from reschedule_existing_in_place [OF sample_call_facts(1) sample_call_facts(1) fp q sample_call_facts(2) init1,
      of 0 10 20]
  obtain res1 w1 res2 w2 t where
    "schedule sample_hash 0 10 ?c1 empty_world = Inr (res1, w1)"
    "schedule sample_hash 0 20 ?c2 w1 = Inr (res2, w2)"
    "pending ''mail'' w2 = [t]" "run_at t = 200" "priority t = 5"
    "res2 = None" "map task_id (tasks w2) = map task_id (tasks w1)"
    by (auto simp: sample_call_facts comp_def)
  then have a: "\<exists>w1 w2 t.
         schedule sample_hash 0 10 ?c1 empty_world = Inr (Some sample_task, w1)
       \<and> schedule sample_hash 0 20 ?c2 w1 = Inr (None, w2)
       \<and> pending ''mail'' w2 = [t] \<and> run_at t = 200 \<and> priority t = 5
       \<and> map task_id (tasks w2) = map task_id (tasks w1)"
    using first_call_sample(1) by auto
  from reschedule_existing_in_place [OF sample_call_facts(1) sample_call_facts(1) fp q sample_call_facts(2) init2,
      of 0 10 20]
  obtain res1 w1 res2 w2 t where
    "schedule sample_hash 0 10 ?c1 one_row_world = Inr (res1, w1)"
    "schedule sample_hash 0 20 ?c2 w1 = Inr (res2, w2)"
    "pending ''mail'' w2 = [t]" "run_at t = 200" "priority t = 5"
    "res2 = None" "map task_id (tasks w2) = map task_id (tasks w1)"
    by (auto simp: sample_call_facts comp_def)
  moreover have "schedule sample_hash 0 10 ?c1 one_row_world = Inr (None, one_row_world)"
    by (simp add: schedule_def new_task_def fingerprint_def update_def
        sample_hash_def sample_call_def default_call_def
        one_row_world_def sample_task_def existing_def unlocked_def
        SCHEDULE_def RESCHEDULE_EXISTING_def CHECK_EXISTING_def Let_def)
  ultimately have b: "\<exists>w1 w2 t.
         schedule sample_hash 0 10 ?c1 one_row_world = Inr (None, w1)
       \<and> schedule sample_hash 0 20 ?c2 w1 = Inr (None, w2)
       \<and> pending ''mail'' w2 = [t] \<and> run_at t = 200 \<and> priority t = 5
       \<and> map task_id (tasks w2) = map task_id (tasks w1)"
    by auto
  show ?thesis
    using a b by (simp add: sample_call_facts sample_pending)
qed

text \<open>
  Claim C2, as stated, fails, in two ways. A second call that asks to remove existing
  tasks deletes the row the first call left and inserts a new one, with a new id and a
  second \<open>task_created\<close>. Two calls on a table that already holds two rows of the
  fingerprint change nothing and leave two.
\<close>

theorem check_existing_counterexample:
  "schedule sample_hash 0 10 (sample_call CHECK_EXISTING 100 0) empty_world
     = Inr (Some sample_task, one_row_world)
   \<and> schedule sample_hash 0 20
       ((sample_call CHECK_EXISTING 200 5)\<lparr>sc_remove_existing_tasks := True\<rparr>)
       one_row_world
     = Inr (Some second_row,
            \<lparr>tasks = [second_row], next_id = 2,
             sent = [task_created sample_task, task_created second_row]\<rparr>)
   \<and> schedule sample_hash 0 10 (sample_call CHECK_EXISTING 100 0) two_row_world
     = Inr (None, two_row_world)
   \<and> schedule sample_hash 0 20 (sample_call CHECK_EXISTING 200 5) two_row_world
     = Inr (None, two_row_world)
   \<and> length (pending ''mail'' two_row_world) = 2"
  using first_call_sample(2) second_call_removes(2) two_rows_stay_two(3,4,5)
  by blast

text \<open>
  Claim C2, amended. Two \<open>schedule\<close> calls with action \<open>CHECK_EXISTING\<close>, the same
  fingerprint and the same queue, with nothing locked in between, on a table that holds no
  row of the fingerprint, or one row of it that is unlocked and in the queue of the calls:
  after both calls exactly one pending row has the fingerprint. When the second call does
  not ask to remove existing tasks, it inserts nothing and updates nothing: it returns
  without a task and leaves the table, the row ids and the signals sent as they were.
\<close>

theorem check_existing_idempotent:
  assumes act1: "sc_action c1 = CHECK_EXISTING"
    and act2: "sc_action c2 = CHECK_EXISTING"
    and fp: "fingerprint hf c2 = fingerprint hf c1"
    and q: "sc_queue c2 = sc_queue c1"
    and init: "pending (fingerprint hf c1) w0 = []
             \<or> (pending (fingerprint hf c1) w0 = [t0] \<and> locked_by t0 = None
                 \<and> (truthy_queue (sc_queue c1) \<longrightarrow> queue t0 = sc_queue c1))"
  shows "\<exists>res1 w1 res2 w2 t.
           schedule hf ttl now1 c1 w0 = Inr (res1, w1)
         \<and> schedule hf ttl now2 c2 w1 = Inr (res2, w2)
         \<and> pending (fingerprint hf c1) w2 = [t]
         \<and> (\<not> sc_remove_existing_tasks c2 \<longrightarrow> res2 = None \<and> w2 = w1)"
proof -
  let ?h = "fingerprint hf c1"
  have "\<exists>res1 w1 t1. schedule hf ttl now1 c1 w0 = Inr (res1, w1)
           \<and> pending ?h w1 = [t1] \<and> locked_by t1 = None
           \<and> (truthy_queue (sc_queue c1) \<longrightarrow> queue t1 = sc_queue c1)"
  proof (cases "pending ?h w0 = []")
    case True
    from after_first_call_row [OF True, of ttl now1] show ?thesis by blast
  next
    case False
    then have one: "pending ?h w0 = [t0]" and unl: "locked_by t0 = None"
      and q0: "truthy_queue (sc_queue c1) \<longrightarrow> queue t0 = sc_queue c1"
      using init by auto
    from check_on_one [OF act1 one unl q0, of ttl now1] show ?thesis by blast
  qed
  then obtain res1 w1 t1 where s1: "schedule hf ttl now1 c1 w0 = Inr (res1, w1)"
    and one: "pending ?h w1 = [t1]" and unl: "locked_by t1 = None"
    and qt: "truthy_queue (sc_queue c1) \<longrightarrow> queue t1 = sc_queue c1"
    by blast
  have one2: "pending (fingerprint hf c2) w1 = [t1]"
    using one fp by simp
  have q2: "truthy_queue (sc_queue c2) \<longrightarrow> queue t1 = sc_queue c2"
    using q qt by simp
  from check_on_one [OF act2 one2 unl q2, of ttl now2]
  obtain res2 w2 t where s2: "schedule hf ttl now2 c2 w1 = Inr (res2, w2)"
    and p2: "pending ?h w2 = [t]"
    using fp by auto
  have "\<not> sc_remove_existing_tasks c2 \<longrightarrow> res2 = None \<and> w2 = w1"
    using check_one_match [OF act2 one2 unl q2, of ttl now2] s2 by auto
  then show ?thesis using s1 s2 p2 by blast
qed


theorem check_existing_idempotent_witness:
  "sc_action (sample_call CHECK_EXISTING 100 0) = CHECK_EXISTING
   \<and> sc_action (sample_call CHECK_EXISTING 200 5) = CHECK_EXISTING
   \<and> fingerprint sample_hash (sample_call CHECK_EXISTING 200 5)
       = fingerprint sample_hash (sample_call CHECK_EXISTING 100 0)
   \<and> sc_queue (sample_call CHECK_EXISTING 200 5) = sc_queue (sample_call CHECK_EXISTING 100 0)
   \<and> pending (fingerprint sample_hash (sample_call CHECK_EXISTING 100 0)) empty_world = []
   \<and> pending (fingerprint sample_hash (sample_call CHECK_EXISTING 100 0)) one_row_world
       = [sample_task]
   \<and> (\<exists>w1.
         schedule sample_hash 0 10 (sample_call CHECK_EXISTING 100 0) empty_world
           = Inr (Some sample_task, w1)
       \<and> schedule sample_hash 0 20 (sample_call CHECK_EXISTING 200 5) w1 = Inr (None, w1)
       \<and> length (pending ''mail'' w1) = 1)
   \<and> (\<exists>w1.
         schedule sample_hash 0 10 (sample_call CHECK_EXISTING 100 0) one_row_world
           = Inr (None, w1)
       \<and> schedule sample_hash 0 20 (sample_call CHECK_EXISTING 200 5) w1 = Inr (None, w1)
       \<and> length (pending ''mail'' w1) = 1)"
proof -
  let ?c1 = "sample_call CHECK_EXISTING 100 0"
  let ?c2 = "sample_call CHECK_EXISTING 200 5"
  have fp: "fingerprint sample_hash ?c2 = fingerprint sample_hash ?c1"
    and q: "sc_queue ?c2 = sc_queue ?c1"
    by (simp_all add: sample_call_facts)
  have init1: "pending (fingerprint sample_hash ?c1) empty_world = []
      \<or> (pending (fingerprint sample_hash ?c1) empty_world = [sample_task]
          \<and> locked_by sample_task = None
          \<and> (truthy_queue (sc_queue ?c1) \<longrightarrow> queue sample_task = sc_queue ?c1))"
    by (simp add: sample_call_facts sample_pending)
  have init2: "pending (fingerprint sample_hash ?c1) one_row_world = []
      \<or> (pending (fingerprint sample_hash ?c1) one_row_world = [sample_task]
          \<and> locked_by sample_task = None
          \<and> (truthy_queue (sc_queue ?c1) \<longrightarrow> queue sample_task = sc_queue ?c1))"
    by (simp add: sample_call_facts sample_pending)
  from check_existing_idempotent [OF sample_call_facts(1) sample_call_facts(1) fp q init1, of 0 10 20]
  obtain res1 w1 res2 w2 t where
    "schedule sample_hash 0 10 ?c1 empty_world = Inr (res1, w1)"
    "schedule sample_hash 0 20 ?c2 w1 = Inr (res2, w2)"
    "pending ''mail'' w2 = [t]" "res2 = None" "w2 = w1"
    by (auto simp: sample_call_facts)
  then have a: "\<exists>w1.
         schedule sample_hash 0 10 ?c1 empty_world = Inr (Some sample_task, w1)
       \<and> schedule sample_hash 0 20 ?c2 w1 = Inr (None, w1)
       \<and> length (pending ''mail'' w1) = 1"
    using first_call_sample(2) by auto
  from check_existing_idempotent [OF sample_call_facts(1) sample_call_facts(1) fp q init2, of 0 10 20]
  obtain res1 w1 res2 w2 t where
    "schedule sample_hash 0 10 ?c1 one_row_world = Inr (res1, w1)"
    "schedule sample_hash 0 20 ?c2 w1 = Inr (res2, w2)"
    "pending ''mail'' w2 = [t]" "res2 = None" "w2 = w1"
    by (auto simp: sample_call_facts)
  moreover have "schedule sample_hash 0 10 ?c1 one_row_world = Inr (None, one_row_world)"
    by (simp add: schedule_def new_task_def fingerprint_def
        sample_hash_def sample_call_def default_call_def
        one_row_world_def sample_task_def existing_def unlocked_def
        SCHEDULE_def RESCHEDULE_EXISTING_def CHECK_EXISTING_def Let_def)
  ultimately have b: "\<exists>w1.
         schedule sample_hash 0 10 ?c1 one_row_world = Inr (None, w1)
       \<and> schedule sample_hash 0 20 ?c2 w1 = Inr (None, w1)
       \<and> length (pending ''mail'' w1) = 1"
    by auto
  show ?thesis
    using a b by (simp add: sample_call_facts sample_pending)
qed

lemma check_on_one_row:
  "schedule sample_hash 0 20 (sample_call CHECK_EXISTING 200 5) one_row_world
     = Inr (None, one_row_world)"
  by (simp add: schedule_def new_task_def fingerprint_def sample_hash_def sample_call_def
        default_call_def one_row_world_def sample_task_def existing_def unlocked_def
        SCHEDULE_def RESCHEDULE_EXISTING_def CHECK_EXISTING_def Let_def)

text \<open>
  Claim C3, as stated, fails: a \<open>CHECK_EXISTING\<close> call that finds a row of its
  fingerprint succeeds and returns no task.
\<close>

theorem schedule_returns_task_counterexample:
  "schedule sample_hash 0 20 (sample_call CHECK_EXISTING 200 5) one_row_world
     = Inr (None, one_row_world)"
  by (rule check_on_one_row)

text \<open>
  Claim C3, amended. A \<open>schedule\<close> call that succeeds returns the newly persisted task
  exactly when it inserts: the row built by \<open>new_task\<close> under the next free id, appended
  to the table and announced by \<open>task_created\<close>. When the action is
  \<open>RESCHEDULE_EXISTING\<close> or \<open>CHECK_EXISTING\<close> and the query finds a row, the call returns
  no task, and it inserts no row and sends no signal.
\<close>

theorem schedule_result:
  assumes "schedule hf ttl now c w = Inr (res, w')"
  shows "if (sc_action c = RESCHEDULE_EXISTING \<or> sc_action c = CHECK_EXISTING)
            \<and> filter (existing ttl now c (fst (new_task hf ttl now c w)))
                 (tasks (snd (new_task hf ttl now c w))) \<noteq> []
         then res = None
            \<and> map task_id (tasks w') = map task_id (tasks (snd (new_task hf ttl now c w)))
            \<and> sent w' = sent w
         else res = Some ((fst (new_task hf ttl now c w))\<lparr>task_id := Some (next_id w)\<rparr>)
            \<and> tasks w' = tasks (snd (new_task hf ttl now c w))
                 @ [(fst (new_task hf ttl now c w))\<lparr>task_id := Some (next_id w)\<rparr>]
            \<and> sent w' = sent w
                 @ [task_created ((fst (new_task hf ttl now c w))\<lparr>task_id := Some (next_id w)\<rparr>)]"
proof -
  let ?task = "fst (new_task hf ttl now c w)"
  let ?w1 = "snd (new_task hf ttl now c w)"
  have nid: "next_id ?w1 = next_id w" and snt: "sent ?w1 = sent w"
    by (simp_all add: new_task_snd)
  show ?thesis
  proof (cases "filter (existing ttl now c ?task) (tasks ?w1) = []")
    case True
    then have "schedule hf ttl now c w = save_and_send ?task ?w1"
      by (rule schedule_no_match)
    then show ?thesis
      using assms True nid snt by (auto simp: save_and_send_def save_def Let_def)
  next
    case False
    show ?thesis
    proof (cases "sc_action c = RESCHEDULE_EXISTING")
      case r: True
      show ?thesis
      proof (cases "sc_run_at c")
        case None
        then have "schedule hf ttl now c w = Inl IntegrityError"
          using r False
          by (simp add: schedule_def update_def split_beta Let_def SCHEDULE_def
                RESCHEDULE_EXISTING_def)
        then show ?thesis using assms by simp
      next
        case (Some r')
        show ?thesis
          using schedule_reschedule_match [OF r Some False] assms r False snt
          by (auto simp: comp_def intro: map_cong)
      qed
    next
      case nr: False
      show ?thesis
      proof (cases "sc_action c = CHECK_EXISTING")
        case True
        then show ?thesis
          using schedule_check_match [OF True False] assms False snt by auto
      next
        case False
        then have "schedule hf ttl now c w = save_and_send ?task ?w1"
          using nr by (simp add: schedule_def split_beta Let_def)
        then show ?thesis
          using assms False nr nid snt by (auto simp: save_and_send_def save_def Let_def)
      qed
    qed
  qed
qed

theorem schedule_result_witness:
  "schedule sample_hash 0 20 (sample_call CHECK_EXISTING 200 5) one_row_world
     = Inr (None, one_row_world)
   \<and> filter (existing 0 20 (sample_call CHECK_EXISTING 200 5)
        (fst (new_task sample_hash 0 20 (sample_call CHECK_EXISTING 200 5) one_row_world)))
        (tasks (snd (new_task sample_hash 0 20 (sample_call CHECK_EXISTING 200 5) one_row_world)))
       = [sample_task]
   \<and> map task_id (tasks one_row_world) = [Some 0]"
proof -
  have found: "filter (existing 0 20 (sample_call CHECK_EXISTING 200 5)
        (fst (new_task sample_hash 0 20 (sample_call CHECK_EXISTING 200 5) one_row_world)))
        (tasks (snd (new_task sample_hash 0 20 (sample_call CHECK_EXISTING 200 5) one_row_world)))
       = [sample_task]"
    by (simp add: new_task_def fingerprint_def sample_hash_def sample_call_def
          default_call_def one_row_world_def sample_task_def existing_def unlocked_def Let_def)
  have "map task_id (tasks one_row_world) = [Some 0]"
    using schedule_result [OF check_on_one_row] found
    by (simp add: one_row_world_def sample_task_def)
  then show ?thesis using check_on_one_row found by blast
qed

section \<open>Traces of bg_runner\<close>

lemma calls_append: "calls (xs @ ys) = calls xs @ calls ys"
  by (induction xs rule: calls.induct) simp_all

lemma outcome_signals_append:
  "outcome_signals (xs @ ys) = outcome_signals xs @ outcome_signals ys"
  by (induction xs rule: outcome_signals.induct) simp_all

text \<open>A block of statements adds to the trace it starts from and ignores what is in it.\<close>

lemma perform_snd: "snd (perform e as tr) = tr @ snd (perform e as [])"
proof (induction as arbitrary: tr)
  case Nil
  show ?case by simp
next
  case (Cons a as)
  show ?case
  proof (cases "fails e a")
    case None
    have "snd (perform e as (tr @ [a])) = (tr @ [a]) @ snd (perform e as [])"
      by (rule Cons)
    moreover have "snd (perform e as [a]) = [a] @ snd (perform e as [])"
      by (rule Cons)
    ultimately show ?thesis using None by simp
  next
    case (Some x)
    then show ?thesis by simp
  qed
qed

lemma perform_fst: "fst (perform e as tr) = fst (perform e as [])"
proof (induction as arbitrary: tr)
  case Nil
  show ?case by simp
next
  case (Cons a as)
  show ?case
  proof (cases "fails e a")
    case None
    have "fst (perform e as (tr @ [a])) = fst (perform e as [])"
      by (rule Cons)
    moreover have "fst (perform e as [a]) = fst (perform e as [])"
      by (rule Cons)
    ultimately show ?thesis using None by simp
  next
    case (Some x)
    then show ?thesis by simp
  qed
qed

lemma perform_split:
  "perform e as tr = (fst (perform e as []), tr @ snd (perform e as []))"
  using perform_fst [of e as tr] perform_snd [of e as tr]
  by (cases "perform e as tr") simp

lemma perform_Cons_nil:
  "snd (perform e (a # as) [])
     = a # (case fails e a of Some x \<Rightarrow> [] | None \<Rightarrow> snd (perform e as []))"
  using perform_snd [of e as "[a]"] by (cases "fails e a") simp_all

lemma set_perform_nil: "set (snd (perform e as [])) \<subseteq> set as"
proof (induction as)
  case Nil
  show ?case by simp
next
  case (Cons a as)
  have "set (snd (perform e (a # as) []))
          = set (a # (case fails e a of Some x \<Rightarrow> [] | None \<Rightarrow> snd (perform e as [])))"
    by (subst perform_Cons_nil) simp
  then show ?case using Cons by (cases "fails e a") auto
qed

lemma calls_perform_nil: "calls as = [] \<Longrightarrow> calls (snd (perform e as [])) = []"
proof (induction as)
  case Nil
  show ?case by simp
next
  case (Cons a as)
  then have a: "calls [a] = []" and as: "calls as = []"
    by (cases a; simp)+
  have "calls (snd (perform e (a # as) []))
          = calls ([a] @ (case fails e a of Some x \<Rightarrow> [] | None \<Rightarrow> snd (perform e as [])))"
    by (subst perform_Cons_nil) simp
  also have "\<dots> = calls [a]
                 @ calls (case fails e a of Some x \<Rightarrow> [] | None \<Rightarrow> snd (perform e as []))"
    by (rule calls_append)
  also have "\<dots> = []"
    using a Cons.IH [OF as] by (cases "fails e a") simp_all
  finally show ?case .
qed

text \<open>The two blocks of \<open>bg_runner\<close>: the bookkeeping after the call, and the handler.\<close>

lemma bookkeeping_outcome:
  "outcome_signals (snd (perform e
       [IncrementAttempts t, CreateCompletedTask t, Send (task_successful t),
        CreateRepetition t, Delete t, Log l] []))
     = (if fails e (IncrementAttempts t) = None \<and> fails e (CreateCompletedTask t) = None
        then [task_successful t] else [])"
  by (simp split: option.splits)

lemma bookkeeping_fst:
  "fst (perform e
       [IncrementAttempts t, CreateCompletedTask t, Send (task_successful t),
        CreateRepetition t, Delete t, Log l] []) = None
   \<longleftrightarrow> fails e (IncrementAttempts t) = None \<and> fails e (CreateCompletedTask t) = None
     \<and> fails e (Send (task_successful t)) = None \<and> fails e (CreateRepetition t) = None
     \<and> fails e (Delete t) = None \<and> fails e (Log l) = None"
  by (simp split: option.splits)

lemma handler_outcome:
  "outcome_signals (snd (perform e [Log l, Send (task_error ex t), Reschedule t ex] []))
     = (if fails e (Log l) = None then [task_error ex t] else [])"
  by (simp split: option.splits)

lemma handler_fst:
  "fst (perform e [Log l, Send (task_error ex t), Reschedule t ex] []) = None
   \<longleftrightarrow> fails e (Log l) = None \<and> fails e (Send (task_error ex t)) = None
     \<and> fails e (Reschedule t ex) = None"
  by (simp split: option.splits)

lemma handler_quiet:
  "Send task_started \<notin> set (snd (perform e [Log l, Send (task_error ex t), Reschedule t ex] []))"
  "Send task_finished \<notin> set (snd (perform e [Log l, Send (task_error ex t), Reschedule t ex] []))"
  using set_perform_nil [of e "[Log l, Send (task_error ex t), Reschedule t ex]"] by auto

lemma handler_calls:
  "calls (snd (perform e [Log l, Send (task_error ex t), Reschedule t ex] [])) = []"
  by (rule calls_perform_nil) simp

lemma perform_started:
  "fails e (Send task_started) = None \<Longrightarrow>
   perform e [Send task_started] [] = (None, [Send task_started])"
  by simp

lemma bg_finish_eq: "bg_finish e tr = (fails e (Send task_finished), tr @ [Send task_finished])"
  by (cases "fails e (Send task_finished)") (simp_all add: bg_finish_def)

text \<open>What follows the \<open>try\<close> block, with the blocks taken from the empty trace.\<close>

lemma bg_after_try_eq:
  "bg_after_try e r task tr =
     (case r of
        None \<Rightarrow> (fails e (Send task_finished), tr @ [Send task_finished])
      | Some ex \<Rightarrow>
          if is_Exception ex then
            (case task of
               None \<Rightarrow> (fails e (Send task_finished), tr @ [Send task_finished])
             | Some t \<Rightarrow>
                 (case fst (perform e [Log ''Rescheduling'', Send (task_error ex t),
                                       Reschedule t ex] []) of
                    Some y \<Rightarrow>
                      (Some y, tr @ snd (perform e [Log ''Rescheduling'', Send (task_error ex t),
                                                    Reschedule t ex] []))
                  | None \<Rightarrow>
                      (fails e (Send task_finished),
                       tr @ snd (perform e [Log ''Rescheduling'', Send (task_error ex t),
                                            Reschedule t ex] [])
                         @ [Send task_finished])))
          else (Some ex, tr))"
  unfolding bg_after_try_def bg_finish_eq
  by (subst perform_split) (simp del: perform.simps split: option.splits)

lemma bg_call_shape:
  "\<exists>r ext. bg_call e p task a k tr = (r, task, tr @ ext) \<and> try_ok e r task ext"
proof (cases "proxy_task_function p")
  case None
  have "bg_call e p task a k tr = (Some BackgroundTaskError, task, tr @ [])"
    using None by (simp add: bg_call_def)
  moreover have "try_ok e (Some BackgroundTaskError) task []"
    by (simp add: try_ok_def split: option.splits)
  ultimately show ?thesis by blast
next
  case (Some func)
  show ?thesis
  proof (cases "func a k")
    case x: (Some x)
    have "bg_call e p task a k tr = (Some x, task, tr @ [Call a k])"
      using Some x by (simp add: bg_call_def)
    moreover have "try_ok e (Some x) task [Call a k]"
      by (simp add: try_ok_def split: option.splits)
    ultimately show ?thesis by blast
  next
    case None
    show ?thesis
    proof (cases task)
      case n: None
      have "bg_call e p task a k tr = (None, task, tr @ [Call a k])"
        using Some None n by (simp add: bg_call_def)
      moreover have "try_ok e None task [Call a k]"
        using n by (simp add: try_ok_def)
      ultimately show ?thesis by blast
    next
      case t: (Some t)
      let ?bk = "[IncrementAttempts t, CreateCompletedTask t, Send (task_successful t),
                  CreateRepetition t, Delete t, Log ''Ran task and deleting'']"
      let ?r = "fst (perform e ?bk [])"
      let ?ext = "Call a k # snd (perform e ?bk [])"
      have "bg_call e p task a k tr
              = (fst (perform e ?bk (tr @ [Call a k])), task, snd (perform e ?bk (tr @ [Call a k])))"
        using Some None t by (simp add: bg_call_def split_beta del: perform.simps)
      also have "\<dots> = (?r, task, tr @ ?ext)"
        using perform_fst [of e ?bk "tr @ [Call a k]"] perform_snd [of e ?bk "tr @ [Call a k]"]
        by (simp del: perform.simps)
      finally have eq: "bg_call e p task a k tr = (?r, task, tr @ ?ext)" .
      have sub: "set (snd (perform e ?bk [])) \<subseteq> set ?bk"
        by (rule set_perform_nil)
      have quiet: "Send task_started \<notin> set ?ext" "Send task_finished \<notin> set ?ext"
        using sub by auto
      have out: "outcome_signals ?ext
          = (if fails e (IncrementAttempts t) = None \<and> fails e (CreateCompletedTask t) = None
             then [task_successful t] else [])"
        using bookkeeping_outcome [of e t "''Ran task and deleting''"]
        by (simp del: perform.simps)
      have "try_ok e ?r task ?ext"
        unfolding try_ok_def t option.case out
        using quiet bookkeeping_fst [of e t "''Ran task and deleting''"]
        by (auto simp del: perform.simps)
      then show ?thesis using eq by blast
    qed
  qed
qed


lemma try_ok_Cons:
  "try_ok e r task ext \<Longrightarrow> outcome_signals [a] = [] \<Longrightarrow> a \<noteq> Send task_started
     \<Longrightarrow> a \<noteq> Send task_finished \<Longrightarrow> try_ok e r task (a # ext)"
  using outcome_signals_append [of "[a]" ext]
  by (cases task) (simp_all add: try_ok_def del: outcome_signals.simps)

lemma bg_try_shape:
  "\<exists>r task' ext. bg_try e p task a k tr = (r, task', tr @ ext) \<and> try_ok e r task' ext
      \<and> (task \<noteq> None \<longrightarrow> task' = task)
      \<and> (task = None \<and> get_task e (proxy_name p) a k = Inr [] \<longrightarrow> task' = None)"
proof (cases task)
  case (Some t)
  show ?thesis
  proof (cases "params e t")
    case (Inl x)
    have "bg_try e p task a k tr = (Some x, task, tr @ [Params t])"
      using Some Inl by (simp add: bg_try_def)
    moreover have "try_ok e (Some x) task [Params t]"
      using Some by (simp add: try_ok_def)
    ultimately show ?thesis using Some by blast
  next
    case (Inr pr)
    obtain pa pk where pr: "pr = (pa, pk)" by (cases pr)
    obtain r ext where c: "bg_call e p task pa pk (tr @ [Params t]) = (r, task, (tr @ [Params t]) @ ext)"
      and ok: "try_ok e r task ext"
      using bg_call_shape [of e p task pa pk "tr @ [Params t]"] by blast
    have "bg_try e p task a k tr = (r, task, tr @ Params t # ext)"
      using Some Inr pr c by (simp add: bg_try_def)
    moreover have "try_ok e r task (Params t # ext)"
      using ok by (rule try_ok_Cons) simp_all
    ultimately show ?thesis using Some by blast
  qed
next
  case None
  let ?g = "GetTask (proxy_name p) a k"
  show ?thesis
  proof (cases "get_task e (proxy_name p) a k")
    case (Inl x)
    have "bg_try e p task a k tr = (Some x, None, tr @ [?g])"
      using None Inl by (simp add: bg_try_def)
    moreover have "try_ok e (Some x) None [?g]"
      by (simp add: try_ok_def)
    ultimately show ?thesis using None Inl by blast
  next
    case (Inr task_qs)
    let ?qs = "if truthy_queue (proxy_queue p)
               then filter (\<lambda>t. queue t = proxy_queue p) task_qs else task_qs"
    let ?task = "case ?qs of [] \<Rightarrow> None | t # _ \<Rightarrow> Some t"
    obtain r ext where c: "bg_call e p ?task a k (tr @ [?g]) = (r, ?task, (tr @ [?g]) @ ext)"
      and ok: "try_ok e r ?task ext"
      using bg_call_shape [of e p ?task a k "tr @ [?g]"] by blast
    have 1: "bg_try e p task a k tr = (r, ?task, tr @ ?g # ext)"
      using None Inr c by (simp add: bg_try_def Let_def)
    have 2: "try_ok e r ?task (?g # ext)"
      using ok by (rule try_ok_Cons) simp_all
    have 3: "task = None \<and> get_task e (proxy_name p) a k = Inr [] \<longrightarrow> ?task = None"
      using Inr by auto
    show ?thesis
      using 1 2 3 None
      by (intro exI [of _ r] exI [of _ ?task] exI [of _ "?g # ext"]) simp
  qed
qed


lemma bg_call_calls:
  assumes f: "proxy_task_function p = Some func"
  shows "calls (snd (snd (bg_call e p task a k tr))) = calls tr @ [(a, k)]"
proof (cases "func a k")
  case (Some x)
  then show ?thesis using f by (simp add: bg_call_def calls_append)
next
  case None
  show ?thesis
  proof (cases task)
    case n: None
    then show ?thesis using f None by (simp add: bg_call_def calls_append)
  next
    case (Some t)
    let ?bk = "[IncrementAttempts t, CreateCompletedTask t, Send (task_successful t),
                CreateRepetition t, Delete t, Log ''Ran task and deleting'']"
    have "snd (snd (bg_call e p task a k tr)) = snd (perform e ?bk (tr @ [Call a k]))"
      using f None Some by (simp add: bg_call_def split_beta del: perform.simps)
    also have "\<dots> = (tr @ [Call a k]) @ snd (perform e ?bk [])"
      by (rule perform_snd)
    finally show ?thesis
      by (simp add: calls_append calls_perform_nil del: perform.simps)
  qed
qed

lemma bg_try_task:
  "params e t = Inr (pa, pk) \<Longrightarrow>
   bg_try e p (Some t) a k tr = bg_call e p (Some t) pa pk (tr @ [Params t])"
  by (simp add: bg_try_def)


lemma bg_runner_after_try:
  assumes st: "fails e (Send task_started) = None"
  shows "\<exists>r task' ext.
           bg_try e p task a k [Send task_started] = (r, task', Send task_started # ext)
         \<and> try_ok e r task' ext
         \<and> (task \<noteq> None \<longrightarrow> task' = task)
         \<and> (task = None \<and> get_task e (proxy_name p) a k = Inr [] \<longrightarrow> task' = None)
         \<and> bg_runner_body e p task a k = bg_after_try e r task' (Send task_started # ext)"
proof -
  obtain r task' ext where t: "bg_try e p task a k [Send task_started]
                                 = (r, task', [Send task_started] @ ext)"
    and ok: "try_ok e r task' ext" and same: "task \<noteq> None \<longrightarrow> task' = task"
    and none: "task = None \<and> get_task e (proxy_name p) a k = Inr [] \<longrightarrow> task' = None"
    using bg_try_shape [of e p task a k "[Send task_started]"] by blast
  have "bg_runner_body e p task a k = bg_after_try e r task' (Send task_started # ext)"
    using t by (simp add: bg_runner_body_def perform_started [OF st] del: perform.simps)
  then show ?thesis using t ok same none by auto
qed

lemma after_try_calls:
  "calls (snd (bg_after_try e r task tr)) = calls tr"
  unfolding bg_after_try_eq
  by (simp add: calls_append handler_calls del: perform.simps split: option.splits)

text \<open>The task the \<open>try\<close> block leaves is the task record of the run.\<close>

lemma bg_call_task: "fst (snd (bg_call e p task a k tr)) = task"
  using bg_call_shape [of e p task a k tr] by auto

lemma bg_try_record: "fst (snd (bg_try e p task a k tr)) = task_record e p task a k"
proof (cases task)
  case (Some t)
  show ?thesis
  proof (cases "params e t")
    case (Inl x)
    then show ?thesis using Some by (simp add: bg_try_def task_record_def)
  next
    case (Inr pr)
    then show ?thesis using Some
      by (cases pr) (simp add: bg_try_def task_record_def bg_call_task)
  qed
next
  case None
  show ?thesis
  proof (cases "get_task e (proxy_name p) a k")
    case (Inl x)
    then show ?thesis using None by (simp add: bg_try_def task_record_def)
  next
    case (Inr task_qs)
    then show ?thesis using None
      by (simp add: bg_try_def task_record_def bg_call_task Let_def)
  qed
qed

text \<open>Where an exception of the \<open>try\<close> block comes from.\<close>

lemma perform_raises:
  "fst (perform e as tr) = Some x \<Longrightarrow> \<exists>act \<in> set as. fails e act = Some x"
proof (induction as arbitrary: tr)
  case Nil
  then show ?case by simp
next
  case (Cons a as)
  show ?case
  proof (cases "fails e a")
    case None
    then have "fst (perform e as (tr @ [a])) = Some x"
      using Cons.prems by simp
    from Cons.IH [OF this] obtain act where "act \<in> set as" "fails e act = Some x"
      by blast
    then show ?thesis by auto
  next
    case (Some y)
    then have "y = x" using Cons.prems by simp
    then show ?thesis using Some by auto
  qed
qed

lemma bg_call_raises:
  assumes "fst (bg_call e p task a k tr) = Some x"
  shows "x = BackgroundTaskError
       \<or> (\<exists>f. proxy_task_function p = Some f \<and> f a k = Some x)
       \<or> (\<exists>act. fails e act = Some x)"
proof (cases "proxy_task_function p")
  case None
  then show ?thesis using assms by (simp add: bg_call_def)
next
  case (Some f)
  show ?thesis
  proof (cases "f a k")
    case y: (Some y)
    then show ?thesis using assms Some by (simp add: bg_call_def)
  next
    case None
    show ?thesis
    proof (cases task)
      case n: None
      then show ?thesis using assms Some None by (simp add: bg_call_def)
    next
      case t: (Some t)
      have "fst (perform e [IncrementAttempts t, CreateCompletedTask t, Send (task_successful t),
                  CreateRepetition t, Delete t, Log ''Ran task and deleting'']
                  (tr @ [Call a k])) = Some x"
        using assms Some None t by (simp add: bg_call_def split_beta del: perform.simps)
      from perform_raises [OF this] obtain act where "fails e act = Some x"
        by blast
      then show ?thesis by blast
    qed
  qed
qed

lemma bg_try_raises:
  assumes "fst (bg_try e p task a k tr) = Some x"
  shows "x = BackgroundTaskError
       \<or> (\<exists>t. params e t = Inl x)
       \<or> (\<exists>n a' k'. get_task e n a' k' = Inl x)
       \<or> (\<exists>f a' k'. proxy_task_function p = Some f \<and> f a' k' = Some x)
       \<or> (\<exists>act. fails e act = Some x)"
proof (cases task)
  case (Some t)
  show ?thesis
  proof (cases "params e t")
    case (Inl y)
    then show ?thesis using assms Some by (auto simp: bg_try_def)
  next
    case (Inr pr)
    obtain pa pk where pr: "pr = (pa, pk)" by (cases pr)
    have "fst (bg_call e p task pa pk (tr @ [Params t])) = Some x"
      using assms Some Inr pr by (simp add: bg_try_def)
    from bg_call_raises [OF this] show ?thesis by blast
  qed
next
  case None
  show ?thesis
  proof (cases "get_task e (proxy_name p) a k")
    case (Inl y)
    then show ?thesis using assms None by (auto simp: bg_try_def)
  next
    case (Inr task_qs)
    then obtain task' where "fst (bg_call e p task' a k (tr @ [GetTask (proxy_name p) a k])) = Some x"
      using assms None by (simp add: bg_try_def Let_def)
    from bg_call_raises [OF this] show ?thesis by blast
  qed
qed


lemma bg_runner_bound:
  "\<not> clash [''proxy_task'', ''task''] k \<Longrightarrow>
   bg_runner e p task a k = bg_runner_body e p task a k"
  by (simp add: bg_runner_def)

lemma bg_try_callable_raises:
  assumes "params e t = Inr (pa, pk)" "proxy_task_function p = Some f" "f pa pk = Some x"
  shows "bg_try e p (Some t) a k tr = (Some x, Some t, tr @ [Params t, Call pa pk])"
  using assms by (simp add: bg_try_def bg_call_def)

lemma sample_run_by_name:
  "bg_runner sample_env sample_proxy None [PInt 7] []
     = (None, [Send task_started, GetTask ''mail'' [PInt 7] [], Call [PInt 7] [],
               Send task_finished])"
  by (simp add: bg_runner_def clash_def bg_runner_body_def bg_try_def bg_call_def
        bg_after_try_def bg_finish_def sample_env_def sample_proxy_def TaskProxy_init_def
        no_rows_def nothing_fails_def returns_normally_def Let_def)

lemma sample_run_on_task:
  "bg_runner sample_env sample_proxy (Some sample_task) [PInt 1] [(''x'', PNone)]
     = (None, [Send task_started, Params sample_task, Call [PInt 7] [],
               IncrementAttempts sample_task, CreateCompletedTask sample_task,
               Send (task_successful sample_task), CreateRepetition sample_task,
               Delete sample_task, Log ''Ran task and deleting'', Send task_finished])"
  by (simp add: bg_runner_def clash_def bg_runner_body_def bg_try_def bg_call_def
        bg_after_try_def bg_finish_def sample_env_def sample_proxy_def TaskProxy_init_def
        stored_params_def nothing_fails_def returns_normally_def Let_def sample_task_def)

lemma sample_run_raising:
  "bg_runner sample_env failing_proxy (Some sample_task) [] []
     = (None, [Send task_started, Params sample_task, Call [PInt 7] [], Log ''Rescheduling'',
               Send (task_error (OtherException ''boom'') sample_task),
               Reschedule sample_task (OtherException ''boom''), Send task_finished])"
  by (simp add: bg_runner_def clash_def bg_runner_body_def bg_try_def bg_call_def
        bg_after_try_def bg_finish_def sample_env_def failing_proxy_def TaskProxy_init_def
        stored_params_def nothing_fails_def raises_error_def Let_def sample_task_def)

lemma sample_run_reschedule_fails:
  "bg_runner env_reschedule_fails failing_proxy (Some sample_task) [] []
     = (Some (OtherException ''store''),
        [Send task_started, Params sample_task, Call [PInt 7] [], Log ''Rescheduling'',
         Send (task_error (OtherException ''boom'') sample_task),
         Reschedule sample_task (OtherException ''boom'')])"
  by (simp add: bg_runner_def clash_def bg_runner_body_def bg_try_def bg_call_def
        bg_after_try_def bg_finish_def env_reschedule_fails_def failing_proxy_def
        TaskProxy_init_def stored_params_def raises_error_def Let_def sample_task_def)

lemma sample_run_delete_fails:
  "bg_runner env_delete_fails sample_proxy (Some sample_task) [] []
     = (None, [Send task_started, Params sample_task, Call [PInt 7] [],
               IncrementAttempts sample_task, CreateCompletedTask sample_task,
               Send (task_successful sample_task), CreateRepetition sample_task,
               Delete sample_task, Log ''Rescheduling'',
               Send (task_error (OtherException ''store'') sample_task),
               Reschedule sample_task (OtherException ''store''), Send task_finished])"
  by (simp add: bg_runner_def clash_def bg_runner_body_def bg_try_def bg_call_def
        bg_after_try_def bg_finish_def env_delete_fails_def sample_proxy_def
        TaskProxy_init_def stored_params_def returns_normally_def Let_def sample_task_def)

lemma sample_run_interrupted:
  "bg_runner sample_env interrupted_proxy (Some sample_task) [] []
     = (Some (NonException ''KeyboardInterrupt''),
        [Send task_started, Params sample_task, Call [PInt 7] []])"
  by (simp add: bg_runner_def clash_def bg_runner_body_def bg_try_def bg_call_def
        bg_after_try_def bg_finish_def sample_env_def interrupted_proxy_def
        TaskProxy_init_def stored_params_def nothing_fails_def interrupted_def Let_def
        sample_task_def)

text \<open>
  Claim C7, as stated, fails, in four ways. A run by name for which no row is found calls
  the callable and sends neither \<open>task_successful\<close> nor \<open>task_error\<close>. When \<open>reschedule\<close>
  raises in the handler, the exception leaves \<open>bg_runner\<close> and \<open>task_finished\<close> is never
  sent. When the callable raises what does not derive from \<open>Exception\<close>, the handler does
  not catch it and \<open>task_finished\<close> is never sent. When \<open>delete\<close> raises after the
  \<open>task_successful\<close> event, \<open>task_error\<close> is sent as well.
\<close>

theorem bg_runner_events_counterexample:
  "bg_runner sample_env sample_proxy None [PInt 7] []
     = (None, [Send task_started, GetTask ''mail'' [PInt 7] [], Call [PInt 7] [],
               Send task_finished])
   \<and> outcome_signals (snd (bg_runner sample_env sample_proxy None [PInt 7] [])) = []
   \<and> bg_runner env_reschedule_fails failing_proxy (Some sample_task) [] []
     = (Some (OtherException ''store''),
        [Send task_started, Params sample_task, Call [PInt 7] [], Log ''Rescheduling'',
         Send (task_error (OtherException ''boom'') sample_task),
         Reschedule sample_task (OtherException ''boom'')])
   \<and> bg_runner sample_env interrupted_proxy (Some sample_task) [] []
     = (Some (NonException ''KeyboardInterrupt''),
        [Send task_started, Params sample_task, Call [PInt 7] []])
   \<and> outcome_signals (snd (bg_runner env_delete_fails sample_proxy (Some sample_task) [] []))
     = [task_successful sample_task, task_error (OtherException ''store'') sample_task]"
  by (simp add: sample_run_by_name sample_run_reschedule_fails sample_run_interrupted
        sample_run_delete_fails)

text \<open>
  Claim C7, amended. Take a run of \<open>bg_runner\<close> in which the event sends, the log calls
  and the \<open>reschedule\<close> of the handler do not raise and whatever is raised derives from
  \<open>Exception\<close>; \<open>task.params()\<close>, the callable and the bookkeeping may raise. Then the run
  returns, \<open>task_started\<close> is sent first, before the callable is called, and
  \<open>task_finished\<close> last, after all outcome handling. Without a task record neither
  \<open>task_successful\<close> nor \<open>task_error\<close> is sent. With a task record whose
  \<open>create_repetition\<close> and \<open>delete\<close> do not raise, exactly one of the two is sent in
  between: \<open>task_error\<close> with the exception when the callable raises, \<open>task_successful\<close>
  when the callable and the bookkeeping complete.
\<close>

theorem bg_runner_events:
  assumes bound: "\<not> clash [''proxy_task'', ''task''] k"
    and sends: "\<And>s. fails e (Send s) = None"
    and logs: "\<And>l. fails e (Log l) = None"
    and resched: "\<And>t' x'. fails e (Reschedule t' x') = None"
    and exn_params: "\<And>t' x'. params e t' = Inl x' \<Longrightarrow> is_Exception x'"
    and exn_get: "\<And>n a' k' x'. get_task e n a' k' = Inl x' \<Longrightarrow> is_Exception x'"
    and exn_func: "\<And>f' a' k' x'. proxy_task_function p = Some f' \<Longrightarrow> f' a' k' = Some x'
                     \<Longrightarrow> is_Exception x'"
    and exn_fails: "\<And>act x'. fails e act = Some x' \<Longrightarrow> is_Exception x'"
  shows "fst (bg_runner e p task a k) = None
     \<and> (\<exists>mid. snd (bg_runner e p task a k) = Send task_started # mid @ [Send task_finished]
            \<and> Send task_started \<notin> set mid \<and> Send task_finished \<notin> set mid)
     \<and> (task_record e p task a k = None \<longrightarrow>
           outcome_signals (snd (bg_runner e p task a k)) = [])
     \<and> (task_record e p task a k = Some t
          \<and> fails e (CreateRepetition t) = None \<and> fails e (Delete t) = None \<longrightarrow>
           outcome_signals (snd (bg_runner e p task a k)) = [task_successful t]
           \<or> (\<exists>x'. outcome_signals (snd (bg_runner e p task a k)) = [task_error x' t]))
     \<and> (task = Some t \<and> params e t = Inr (pa, pk) \<and> proxy_task_function p = Some f
          \<and> f pa pk = Some x \<longrightarrow>
           outcome_signals (snd (bg_runner e p task a k)) = [task_error x t])
     \<and> (task = Some t \<and> params e t = Inr (pa, pk) \<and> proxy_task_function p = Some f
          \<and> f pa pk = None \<and> fails e (IncrementAttempts t) = None
          \<and> fails e (CreateCompletedTask t) = None \<and> fails e (CreateRepetition t) = None
          \<and> fails e (Delete t) = None \<longrightarrow>
           outcome_signals (snd (bg_runner e p task a k)) = [task_successful t])"
proof -
  have st: "fails e (Send task_started) = None" and fin: "fails e (Send task_finished) = None"
    by (rule sends)+
  have body: "bg_runner e p task a k = bg_runner_body e p task a k"
    using bound by (rule bg_runner_bound)
  obtain r task' ext where t: "bg_try e p task a k [Send task_started]
                                 = (r, task', Send task_started # ext)"
    and ok: "try_ok e r task' ext"
    and run: "bg_runner_body e p task a k = bg_after_try e r task' (Send task_started # ext)"
    using bg_runner_after_try [OF st, of p task a k] by blast
  have rec: "task' = task_record e p task a k"
    using bg_try_record [of e p task a k "[Send task_started]"] t by simp
  have exn: "is_Exception ex" if "r = Some ex" for ex
  proof -
    have "fst (bg_try e p task a k [Send task_started]) = Some ex"
      using t that by simp
    from bg_try_raises [OF this] show ?thesis
      using exn_params exn_get exn_func exn_fails by auto
  qed
  have h: "fst (perform e [Log ''Rescheduling'', Send (task_error ex t'), Reschedule t' ex] [])
             = None" for ex t'
    using handler_fst [of e "''Rescheduling''" ex t'] sends logs resched
    by (simp del: perform.simps)
  have ho: "outcome_signals (snd (perform e [Log ''Rescheduling'', Send (task_error ex t'),
              Reschedule t' ex] [])) = [task_error ex t']" for ex t'
    using handler_outcome [of e "''Rescheduling''" ex t'] logs by (simp del: perform.simps)
  define hx where "hx = (case r of
      None \<Rightarrow> []
    | Some ex \<Rightarrow> (case task' of
          None \<Rightarrow> []
        | Some t' \<Rightarrow> snd (perform e [Log ''Rescheduling'', Send (task_error ex t'),
                                     Reschedule t' ex] [])))"
  have res: "bg_runner e p task a k
               = (None, Send task_started # (ext @ hx) @ [Send task_finished])"
    unfolding body run bg_after_try_eq hx_def
    using exn h fin by (cases r; cases task'; simp del: perform.simps)
  have q: "Send task_started \<notin> set ext" "Send task_finished \<notin> set ext"
    using ok by (simp_all add: try_ok_def)
  have qh: "Send task_started \<notin> set hx" "Send task_finished \<notin> set hx"
    unfolding hx_def using handler_quiet [of e "''Rescheduling''"]
    by (cases r; cases task'; simp del: perform.simps)+
  have out: "outcome_signals (snd (bg_runner e p task a k))
               = outcome_signals ext @ outcome_signals hx"
    unfolding res by (simp add: outcome_signals_append)
  have oh: "outcome_signals hx
              = (case r of None \<Rightarrow> []
                 | Some ex \<Rightarrow> (case task' of None \<Rightarrow> [] | Some t' \<Rightarrow> [task_error ex t']))"
    unfolding hx_def using ho by (cases r; cases task'; simp del: perform.simps)
  have 1: "fst (bg_runner e p task a k) = None"
    using res by simp
  have 2: "\<exists>mid. snd (bg_runner e p task a k) = Send task_started # mid @ [Send task_finished]
            \<and> Send task_started \<notin> set mid \<and> Send task_finished \<notin> set mid"
    using res q qh by (intro exI [of _ "ext @ hx"]) simp
  have 3: "task_record e p task a k = None \<longrightarrow>
           outcome_signals (snd (bg_runner e p task a k)) = []"
    using ok rec out oh by (cases r) (auto simp: try_ok_def)
  have 4: "task_record e p task a k = Some t
          \<and> fails e (CreateRepetition t) = None \<and> fails e (Delete t) = None \<longrightarrow>
           outcome_signals (snd (bg_runner e p task a k)) = [task_successful t]
           \<or> (\<exists>x'. outcome_signals (snd (bg_runner e p task a k)) = [task_error x' t])"
    using ok rec out oh sends logs by (cases r) (auto simp: try_ok_def)
  have 5: "task = Some t \<and> params e t = Inr (pa, pk) \<and> proxy_task_function p = Some f
          \<and> f pa pk = Some x \<longrightarrow>
           outcome_signals (snd (bg_runner e p task a k)) = [task_error x t]"
  proof
    assume a: "task = Some t \<and> params e t = Inr (pa, pk) \<and> proxy_task_function p = Some f
          \<and> f pa pk = Some x"
    then have "bg_try e p task a k [Send task_started]
                 = (Some x, Some t, [Send task_started] @ [Params t, Call pa pk])"
      using bg_try_callable_raises [of e t pa pk p f x a k "[Send task_started]"] by simp
    then have "r = Some x" "task' = Some t" "ext = [Params t, Call pa pk]"
      using t by simp_all
    then show "outcome_signals (snd (bg_runner e p task a k)) = [task_error x t]"
      using out oh by simp
  qed
  have 6: "task = Some t \<and> params e t = Inr (pa, pk) \<and> proxy_task_function p = Some f
          \<and> f pa pk = None \<and> fails e (IncrementAttempts t) = None
          \<and> fails e (CreateCompletedTask t) = None \<and> fails e (CreateRepetition t) = None
          \<and> fails e (Delete t) = None \<longrightarrow>
           outcome_signals (snd (bg_runner e p task a k)) = [task_successful t]"
  proof
    assume a: "task = Some t \<and> params e t = Inr (pa, pk) \<and> proxy_task_function p = Some f
          \<and> f pa pk = None \<and> fails e (IncrementAttempts t) = None
          \<and> fails e (CreateCompletedTask t) = None \<and> fails e (CreateRepetition t) = None
          \<and> fails e (Delete t) = None"
    let ?bk = "[IncrementAttempts t, CreateCompletedTask t, Send (task_successful t),
                CreateRepetition t, Delete t, Log ''Ran task and deleting'']"
    have "fst (perform e ?bk []) = None"
      using bookkeeping_fst [of e t "''Ran task and deleting''"] a sends logs
      by (simp del: perform.simps)
    then have "fst (perform e ?bk ([Send task_started] @ [Params t] @ [Call pa pk])) = None"
      using perform_fst [of e ?bk "[Send task_started] @ [Params t] @ [Call pa pk]"]
      by (simp del: perform.simps)
    then have "fst (bg_try e p task a k [Send task_started]) = None"
      using a by (simp add: bg_try_def bg_call_def split_beta del: perform.simps)
    then have "r = None" using t by simp
    moreover have "task' = Some t" using rec a by (simp add: task_record_def)
    ultimately show "outcome_signals (snd (bg_runner e p task a k)) = [task_successful t]"
      using ok out oh by (simp add: try_ok_def)
  qed
  show ?thesis using 1 2 3 4 5 6 by blast
qed


theorem bg_runner_events_witness:
  "\<not> clash [''proxy_task'', ''task''] [(''x'', PNone)]
   \<and> bg_runner sample_env sample_proxy (Some sample_task) [PInt 1] [(''x'', PNone)]
     = (None, [Send task_started, Params sample_task, Call [PInt 7] [],
               IncrementAttempts sample_task, CreateCompletedTask sample_task,
               Send (task_successful sample_task), CreateRepetition sample_task,
               Delete sample_task, Log ''Ran task and deleting'', Send task_finished])
   \<and> outcome_signals
        (snd (bg_runner sample_env sample_proxy (Some sample_task) [PInt 1] [(''x'', PNone)]))
       = [task_successful sample_task]
   \<and> fst (bg_runner sample_env failing_proxy (Some sample_task) [] []) = None
   \<and> last (snd (bg_runner sample_env failing_proxy (Some sample_task) [] []))
       = Send task_finished
   \<and> outcome_signals (snd (bg_runner sample_env failing_proxy (Some sample_task) [] []))
       = [task_error (OtherException ''boom'') sample_task]
   \<and> task_record sample_env sample_proxy None [PInt 7] [] = None
   \<and> outcome_signals (snd (bg_runner sample_env sample_proxy None [PInt 7] [])) = []"
proof -
  have env: "fails sample_env act = None" "params sample_env t = Inr (task_params t)"
    "get_task sample_env n a k = Inr []" for act t n a k
    by (simp_all add: sample_env_def nothing_fails_def stored_params_def no_rows_def)
  have f1: "proxy_task_function sample_proxy = Some returns_normally"
    and f2: "proxy_task_function failing_proxy = Some raises_error"
    by (simp_all add: sample_proxy_def failing_proxy_def TaskProxy_init_def)
  have b1: "\<not> clash [''proxy_task'', ''task''] [(''x'', PNone)]"
    and b2: "\<not> clash [''proxy_task'', ''task''] []"
    by (simp_all add: clash_def)
  have pr: "params sample_env sample_task = Inr ([PInt 7], [])"
    by (simp add: env sample_task_def)
  have rec: "task_record sample_env sample_proxy None [PInt 7] [] = None"
    by (simp add: task_record_def env)
  have x1: "is_Exception x'" if "params sample_env t' = Inl x'" for t' x'
    using that by (simp add: env)
  have x2: "is_Exception x'" if "get_task sample_env n a' k' = Inl x'" for n a' k' x'
    using that by (simp add: env)
  have x3: "is_Exception x'" if "fails sample_env act = Some x'" for act x'
    using that by (simp add: env)
  have x4: "is_Exception x'"
    if "proxy_task_function sample_proxy = Some f'" "f' a' k' = Some x'" for f' a' k' x'
    using that by (simp add: f1 returns_normally_def)
  have x5: "is_Exception x'"
    if "proxy_task_function failing_proxy = Some f'" "f' a' k' = Some x'" for f' a' k' x'
    using that by (auto simp: f2 raises_error_def)
  have ok: "outcome_signals
        (snd (bg_runner sample_env sample_proxy (Some sample_task) [PInt 1] [(''x'', PNone)]))
       = [task_successful sample_task]"
    using bg_runner_events [of "[(''x'', PNone)]" sample_env sample_proxy "Some sample_task" "[PInt 1]"
        sample_task "[PInt 7]" "[]" returns_normally, OF b1 env(1) env(1) env(1) x1 x2 x4 x3]
      env f1 pr
    by (simp add: returns_normally_def)
  have failed: "fst (bg_runner sample_env failing_proxy (Some sample_task) [] []) = None"
    "outcome_signals (snd (bg_runner sample_env failing_proxy (Some sample_task) [] []))
       = [task_error (OtherException ''boom'') sample_task]"
    using bg_runner_events [of "[]" sample_env failing_proxy "Some sample_task" "[]"
        sample_task "[PInt 7]" "[]" raises_error "OtherException ''boom''",
        OF b2 env(1) env(1) env(1) x1 x2 x5 x3]
      f2 pr
    by (simp_all add: raises_error_def)
  have none: "outcome_signals (snd (bg_runner sample_env sample_proxy None [PInt 7] [])) = []"
    using bg_runner_events [of "[]" sample_env sample_proxy None "[PInt 7]", OF b2 env(1) env(1) env(1)
        x1 x2 x4 x3] rec
    by simp
  show ?thesis
    using b1 ok failed none rec by (simp add: sample_run_on_task sample_run_raising)
qed

text \<open>
  Claim C10. \<open>Tasks.run_task\<close> given a \<open>Task\<close> whose name is registered runs
  \<open>bg_runner\<close> on the registered proxy and that \<open>Task\<close> with no positional and no keyword
  arguments, whatever arguments were passed along: in the calling thread, or as a job of
  the thread pool when \<open>BACKGROUND_TASK_RUN_ASYNC\<close> is on. \<open>bg_runner\<close> given a \<open>Task\<close>
  ignores its own positional and keyword arguments. When the start signal does not raise,
  \<open>task.params()\<close> returns and the proxy has a callable, the callable is called once, with
  exactly the arguments \<open>task.params()\<close> returned.
\<close>

theorem task_instance_params:
  "(reg (task_name t) = Some p \<longrightarrow>
      run_task False e reg (Inl t) oa ok
        = \<lparr>raised = fst (bg_runner e p (Some t) [] []),
           trace = snd (bg_runner e p (Some t) [] []), submitted = []\<rparr>
    \<and> run_task True e reg (Inl t) oa ok
        = \<lparr>raised = None, trace = [], submitted = [(p, Some t, [], [])]\<rparr>
    \<and> run_job e (p, Some t, [], []) = bg_runner e p (Some t) [] [])
   \<and> (\<not> clash [''proxy_task'', ''task''] k \<longrightarrow>
        bg_runner e p (Some t) a k = bg_runner e p (Some t) [] [])
   \<and> (fails e (Send task_started) = None \<and> params e t = Inr (pa, pk)
        \<and> proxy_task_function p = Some func \<longrightarrow>
        calls (snd (bg_runner e p (Some t) [] [])) = [(pa, pk)])
   \<and> (reg (task_name t) = Some p \<and> fails e (Send task_started) = None
        \<and> params e t = Inr (pa, pk) \<and> proxy_task_function p = Some func \<longrightarrow>
        calls (trace (run_task False e reg (Inl t) oa ok)) = [(pa, pk)])"
proof -
  have same: "bg_runner_body e p (Some t) a k = bg_runner_body e p (Some t) [] []"
    unfolding bg_runner_body_def bg_try_def by (simp only: option.case)
  have nil: "bg_runner e p (Some t) [] [] = bg_runner_body e p (Some t) [] []"
    by (simp add: bg_runner_def clash_def)
  have 1: "reg (task_name t) = Some p \<longrightarrow>
      run_task False e reg (Inl t) oa ok
        = \<lparr>raised = fst (bg_runner e p (Some t) [] []),
           trace = snd (bg_runner e p (Some t) [] []), submitted = []\<rparr>
    \<and> run_task True e reg (Inl t) oa ok
        = \<lparr>raised = None, trace = [], submitted = [(p, Some t, [], [])]\<rparr>
    \<and> run_job e (p, Some t, [], []) = bg_runner e p (Some t) [] []"
    by (simp add: run_task_def PoolRunner_run_def clash_def run_job_def split_beta)
  have 2: "\<not> clash [''proxy_task'', ''task''] k \<longrightarrow>
        bg_runner e p (Some t) a k = bg_runner e p (Some t) [] []"
    using same nil by (simp add: bg_runner_def)
  have 3: "fails e (Send task_started) = None \<and> params e t = Inr (pa, pk)
        \<and> proxy_task_function p = Some func \<longrightarrow>
        calls (snd (bg_runner e p (Some t) [] [])) = [(pa, pk)]"
  proof
    assume h: "fails e (Send task_started) = None \<and> params e t = Inr (pa, pk)
        \<and> proxy_task_function p = Some func"
    then have st: "fails e (Send task_started) = None" and pr: "params e t = Inr (pa, pk)"
      and f: "proxy_task_function p = Some func" by simp_all
    have "calls (snd (bg_runner_body e p (Some t) [] []))
            = calls (snd (snd (bg_try e p (Some t) [] [] [Send task_started])))"
      by (cases "bg_try e p (Some t) [] [] [Send task_started]")
         (simp add: bg_runner_body_def perform_started [OF st] after_try_calls
            del: perform.simps)
    then show "calls (snd (bg_runner e p (Some t) [] [])) = [(pa, pk)]"
      unfolding nil by (simp add: bg_try_task [OF pr] bg_call_calls [OF f])
  qed
  have 4: "reg (task_name t) = Some p \<and> fails e (Send task_started) = None
        \<and> params e t = Inr (pa, pk) \<and> proxy_task_function p = Some func \<longrightarrow>
        calls (trace (run_task False e reg (Inl t) oa ok)) = [(pa, pk)]"
    using 1 3 by simp
  show ?thesis using 1 2 3 4 by blast
qed

theorem task_instance_params_witness:
  "sample_registry (task_name sample_task) = Some sample_proxy
   \<and> fails sample_env (Send task_started) = None
   \<and> params sample_env sample_task = Inr ([PInt 7], [])
   \<and> proxy_task_function sample_proxy = Some returns_normally
   \<and> calls (trace (run_task False sample_env sample_registry (Inl sample_task)
        (Some [PInt 1]) (Some [(''x'', PNone)]))) = [([PInt 7], [])]
   \<and> run_task True sample_env sample_registry (Inl sample_task)
        (Some [PInt 1]) (Some [(''x'', PNone)])
       = \<lparr>raised = None, trace = [], submitted = [(sample_proxy, Some sample_task, [], [])]\<rparr>
   \<and> calls (snd (run_job sample_env (sample_proxy, Some sample_task, [], [])))
       = [([PInt 7], [])]"
proof -
  have hyps: "sample_registry (task_name sample_task) = Some sample_proxy"
    "fails sample_env (Send task_started) = None"
    "params sample_env sample_task = Inr ([PInt 7], [])"
    "proxy_task_function sample_proxy = Some returns_normally"
    by (simp_all add: sample_registry_def sample_env_def nothing_fails_def stored_params_def
          sample_task_def sample_proxy_def TaskProxy_init_def)
  note run = task_instance_params [of sample_registry sample_task sample_proxy sample_env
      "Some [PInt 1]" "Some [(''x'', PNone)]" "[]" "[]" "[PInt 7]" "[]" returns_normally]
  have a: "calls (trace (run_task False sample_env sample_registry (Inl sample_task)
        (Some [PInt 1]) (Some [(''x'', PNone)]))) = [([PInt 7], [])]"
    using run hyps by blast
  have b: "run_task True sample_env sample_registry (Inl sample_task)
        (Some [PInt 1]) (Some [(''x'', PNone)])
       = \<lparr>raised = None, trace = [], submitted = [(sample_proxy, Some sample_task, [], [])]\<rparr>"
    using run hyps by blast
  have "run_job sample_env (sample_proxy, Some sample_task, [], [])
          = bg_runner sample_env sample_proxy (Some sample_task) [] []"
    "calls (snd (bg_runner sample_env sample_proxy (Some sample_task) [] [])) = [([PInt 7], [])]"
    using run hyps by blast+
  then have c: "calls (snd (run_job sample_env (sample_proxy, Some sample_task, [], [])))
       = [([PInt 7], [])]"
    by simp
  show ?thesis using hyps a b c by blast
qed

section \<open>Dispatch of a name that is not registered\<close>

lemma unregistered_sample:
  "run_task False sample_env empty_registry (Inr ''mail'') (Some [PInt 7]) (Some [])
     = \<lparr>raised = Some (KeyError ''mail''), trace = [], submitted = []\<rparr>"
  by (simp add: run_task_def empty_registry_def)

text \<open>
  Claim C6, as stated, fails: the dispatch of a name that is not in the registry does
  not end in a failure outcome; the \<open>KeyError\<close> of the lookup leaves \<open>run_task\<close>.
\<close>

theorem unregistered_name_counterexample:
  "run_task False sample_env empty_registry (Inr ''mail'') (Some [PInt 7]) (Some [])
     = \<lparr>raised = Some (KeyError ''mail''), trace = [], submitted = []\<rparr>"
  by (rule unregistered_sample)

text \<open>
  Claim C6, amended. For every dispatch through \<open>Tasks.run_task\<close> of a name (or of a
  \<open>Task\<close> whose name) is not in the registry, the lookup raises \<open>KeyError\<close>, which leaves
  \<open>run_task\<close>; nothing is called, no event is sent and nothing is handed to the pool.
\<close>

theorem unregistered_name_raises:
  "(reg n = None \<longrightarrow>
      run_task run_async e reg (Inr n) a k
        = \<lparr>raised = Some (KeyError n), trace = [], submitted = []\<rparr>)
   \<and> (reg (task_name t) = None \<longrightarrow>
      run_task run_async e reg (Inl t) a k
        = \<lparr>raised = Some (KeyError (task_name t)), trace = [], submitted = []\<rparr>)"
  by (simp add: run_task_def)


theorem unregistered_name_raises_witness:
  "empty_registry ''mail'' = None
   \<and> run_task True sample_env empty_registry (Inr ''mail'') (Some [PInt 7]) (Some [])
       = \<lparr>raised = Some (KeyError ''mail''), trace = [], submitted = []\<rparr>
   \<and> empty_registry (task_name sample_task) = None
   \<and> run_task True sample_env empty_registry (Inl sample_task) None None
       = \<lparr>raised = Some (KeyError ''mail''), trace = [], submitted = []\<rparr>"
  using unregistered_name_raises [of empty_registry "''mail''" True sample_env
      "Some [PInt 7]" "Some []" sample_task]
    unregistered_name_raises [of empty_registry "''mail''" True sample_env None None sample_task]
  by (simp add: empty_registry_def sample_task_def)

section \<open>Polling for the next task\<close>

lemma lock_first_raises:
  "lock m task worker_name s = (Inl x, s') \<Longrightarrow>
   lock_first m worker_name (task # rest) s = (Inl x, s')"
  by simp

lemma lock_first_skips:
  "lock m task worker_name s = (Inr None, s') \<Longrightarrow>
   lock_first m worker_name (task # rest) s = lock_first m worker_name rest s'"
  by simp

lemma sample_claim:
  "get_task_to_run sample_models ''worker'' sample_registry None ()
     = (Inr (Some (sample_task\<lparr>locked_by := Some ''worker''\<rparr>)), (), [])"
  by (simp add: get_task_to_run_def get_task_to_run_try_def sample_models_def
        all_available_def lock_succeeds_def sample_registry_def sample_task_def)

lemma sample_async_next:
  "run_next_task True sample_env sample_models ''worker'' sample_registry None ()
     = (Some True, (),
        \<lparr>raised = None, trace = [Log ''Running''],
         submitted = [(sample_proxy, Some (sample_task\<lparr>locked_by := Some ''worker''\<rparr>), [], [])]\<rparr>)"
  unfolding run_next_task_def sample_claim
  by (simp add: DBTaskRunner_run_task_def run_task_def PoolRunner_run_def clash_def
        sample_registry_def sample_task_def Let_def)


lemma sample_outage:
  "find_available down_models None () = Inl OperationalError"
  "get_task_to_run_try lock_down_models ''worker'' sample_registry None ()
     = (Inl OperationalError, ())"
  by (simp_all add: down_models_def unreachable_def lock_down_models_def
        get_task_to_run_try_def all_available_def lock_unreachable_def sample_registry_def
        sample_task_def)

lemma sample_idle:
  "get_task_to_run idle_models ''worker'' sample_registry None () = (Inr None, (), [])"
  by (simp add: get_task_to_run_def get_task_to_run_try_def idle_models_def none_available_def)

text \<open>
  Claim C4, as stated, fails: with \<open>BACKGROUND_TASK_RUN_ASYNC\<close> on, \<open>run_next_task\<close>
  returns true for a claimed task that it has only handed to the thread pool; the callable
  has not been called when it returns.
\<close>

theorem run_next_task_counterexample:
  "run_next_task True sample_env sample_models ''worker'' sample_registry None ()
     = (Some True, (),
        \<lparr>raised = None, trace = [Log ''Running''],
         submitted = [(sample_proxy, Some (sample_task\<lparr>locked_by := Some ''worker''\<rparr>), [], [])]\<rparr>)"
  by (rule sample_async_next)

text \<open>
  Claim C4, amended. When the claim step returns no task, \<open>run_next_task\<close> returns false
  and runs nothing. When it returns a task whose name is registered: with
  \<open>BACKGROUND_TASK_RUN_ASYNC\<close> off, the whole of \<open>bg_runner\<close> on that task (dispatch and
  bookkeeping) happens before \<open>run_next_task\<close> returns, and it returns true unless an
  exception leaves \<open>bg_runner\<close>, which then leaves \<open>run_next_task\<close>; with the setting on,
  the task is handed to the thread pool and \<open>run_next_task\<close> returns true at once.
\<close>

theorem run_next_task_result:
  "(fst (get_task_to_run m worker_name reg q s) = Inr None \<longrightarrow>
      fst (run_next_task run_async e m worker_name reg q s) = Some False
    \<and> calls (trace (snd (snd (run_next_task run_async e m worker_name reg q s)))) = []
    \<and> submitted (snd (snd (run_next_task run_async e m worker_name reg q s))) = [])
   \<and> (get_task_to_run m worker_name reg q s = (Inr (Some task), s', lg)
        \<and> reg (task_name task) = Some proxy_task \<and> \<not> run_async \<longrightarrow>
      run_next_task run_async e m worker_name reg q s
        = (if fst (bg_runner e proxy_task (Some task) [] []) = None then Some True else None,
           s',
           \<lparr>raised = fst (bg_runner e proxy_task (Some task) [] []),
            trace = lg @ Log ''Running'' # snd (bg_runner e proxy_task (Some task) [] []),
            submitted = []\<rparr>))
   \<and> (get_task_to_run m worker_name reg q s = (Inr (Some task), s', lg)
        \<and> reg (task_name task) = Some proxy_task \<and> run_async \<longrightarrow>
      run_next_task run_async e m worker_name reg q s
        = (Some True, s',
           \<lparr>raised = None, trace = lg @ [Log ''Running''],
            submitted = [(proxy_task, Some task, [], [])]\<rparr>))"
proof (intro conjI impI)
  assume n: "fst (get_task_to_run m worker_name reg q s) = Inr None"
  obtain r s1 lg1 where g: "get_task_to_run m worker_name reg q s = (r, s1, lg1)"
    by (cases "get_task_to_run m worker_name reg q s") auto
  have lg: "calls lg1 = []"
    using g by (auto simp: get_task_to_run_def split: prod.splits sum.splits if_splits)
  have r: "r = Inr None" using n g by simp
  show "fst (run_next_task run_async e m worker_name reg q s) = Some False"
    using g r by (simp add: run_next_task_def)
  show "calls (trace (snd (snd (run_next_task run_async e m worker_name reg q s)))) = []"
    using g r lg by (simp add: run_next_task_def)
  show "submitted (snd (snd (run_next_task run_async e m worker_name reg q s))) = []"
    using g r by (simp add: run_next_task_def)
next
  assume "get_task_to_run m worker_name reg q s = (Inr (Some task), s', lg)
        \<and> reg (task_name task) = Some proxy_task \<and> \<not> run_async"
  then show "run_next_task run_async e m worker_name reg q s
        = (if fst (bg_runner e proxy_task (Some task) [] []) = None then Some True else None,
           s',
           \<lparr>raised = fst (bg_runner e proxy_task (Some task) [] []),
            trace = lg @ Log ''Running'' # snd (bg_runner e proxy_task (Some task) [] []),
            submitted = []\<rparr>)"
    by (simp add: run_next_task_def DBTaskRunner_run_task_def run_task_def split_beta Let_def)
next
  assume "get_task_to_run m worker_name reg q s = (Inr (Some task), s', lg)
        \<and> reg (task_name task) = Some proxy_task \<and> run_async"
  then show "run_next_task run_async e m worker_name reg q s
        = (Some True, s',
           \<lparr>raised = None, trace = lg @ [Log ''Running''],
            submitted = [(proxy_task, Some task, [], [])]\<rparr>)"
    by (simp add: run_next_task_def DBTaskRunner_run_task_def run_task_def PoolRunner_run_def
          clash_def Let_def)
qed


theorem run_next_task_result_witness:
  "fst (get_task_to_run idle_models ''worker'' sample_registry None ()) = Inr None
   \<and> fst (run_next_task False sample_env idle_models ''worker'' sample_registry None ())
       = Some False
   \<and> get_task_to_run sample_models ''worker'' sample_registry None ()
       = (Inr (Some (sample_task\<lparr>locked_by := Some ''worker''\<rparr>)), (), [])
   \<and> sample_registry (task_name (sample_task\<lparr>locked_by := Some ''worker''\<rparr>))
       = Some sample_proxy
   \<and> fst (run_next_task False sample_env sample_models ''worker'' sample_registry None ())
       = Some True
   \<and> calls (trace (snd (snd
        (run_next_task False sample_env sample_models ''worker'' sample_registry None ()))))
       = [([PInt 7], [])]
   \<and> fst (run_next_task True sample_env sample_models ''worker'' sample_registry None ())
       = Some True
   \<and> calls (trace (snd (snd
        (run_next_task True sample_env sample_models ''worker'' sample_registry None ()))))
       = []"
proof -
  let ?t = "sample_task\<lparr>locked_by := Some ''worker''\<rparr>"
  have reg: "sample_registry (task_name ?t) = Some sample_proxy"
    by (simp add: sample_registry_def sample_task_def)
  have idle: "fst (get_task_to_run idle_models ''worker'' sample_registry None ()) = Inr None"
    by (simp add: sample_idle)
  have run: "bg_runner sample_env sample_proxy (Some ?t) [] []
     = (None, [Send task_started, Params ?t, Call [PInt 7] [],
               IncrementAttempts ?t, CreateCompletedTask ?t,
               Send (task_successful ?t), CreateRepetition ?t,
               Delete ?t, Log ''Ran task and deleting'', Send task_finished])"
    by (simp add: bg_runner_def clash_def bg_runner_body_def bg_try_def bg_call_def
          bg_after_try_def bg_finish_def sample_env_def sample_proxy_def TaskProxy_init_def
          stored_params_def nothing_fails_def returns_normally_def Let_def sample_task_def)
  have 1: "fst (run_next_task False sample_env idle_models ''worker'' sample_registry None ())
             = Some False"
    using run_next_task_result [of idle_models "''worker''" sample_registry None "()" False
        sample_env] idle
    by blast
  have 2: "run_next_task False sample_env sample_models ''worker'' sample_registry None ()
     = (if fst (bg_runner sample_env sample_proxy (Some ?t) [] []) = None
        then Some True else None, (),
        \<lparr>raised = fst (bg_runner sample_env sample_proxy (Some ?t) [] []),
         trace = [] @ Log ''Running'' # snd (bg_runner sample_env sample_proxy (Some ?t) [] []),
         submitted = []\<rparr>)"
    using run_next_task_result [of sample_models "''worker''" sample_registry None "()" False
        sample_env ?t "()" "[]" sample_proxy] sample_claim reg
    by blast
  have 3: "run_next_task True sample_env sample_models ''worker'' sample_registry None ()
     = (Some True, (),
        \<lparr>raised = None, trace = [] @ [Log ''Running''],
         submitted = [(sample_proxy, Some ?t, [], [])]\<rparr>)"
    using run_next_task_result [of sample_models "''worker''" sample_registry None "()" True
        sample_env ?t "()" "[]" sample_proxy] sample_claim reg
    by blast
  show ?thesis
    unfolding 2 3 run using idle 1 sample_claim reg by simp
qed

text \<open>
  Claim C5. When the store raises \<open>OperationalError\<close> while the candidates are selected
  or while one of them is locked, \<open>get_task_to_run\<close> catches it, logs a warning and
  yields no task, and \<open>run_next_task\<close> returns false without running anything; no
  \<open>OperationalError\<close> from the claim step ever reaches the caller.
\<close>

theorem operational_error_no_work:
  "(find_available m q s = Inl OperationalError \<longrightarrow>
      get_task_to_run m worker_name reg q s
        = (Inr None, s, [Log ''Failed to retrieve tasks. Database unreachable.''])
    \<and> run_next_task run_async e m worker_name reg q s
        = (Some False, s,
           \<lparr>raised = None, trace = [Log ''Failed to retrieve tasks. Database unreachable.''],
            submitted = []\<rparr>))
   \<and> (get_task_to_run_try m worker_name reg q s = (Inl OperationalError, s') \<longrightarrow>
      get_task_to_run m worker_name reg q s
        = (Inr None, s', [Log ''Failed to retrieve tasks. Database unreachable.''])
    \<and> run_next_task run_async e m worker_name reg q s
        = (Some False, s',
           \<lparr>raised = None, trace = [Log ''Failed to retrieve tasks. Database unreachable.''],
            submitted = []\<rparr>))
   \<and> fst (get_task_to_run m worker_name reg q s) \<noteq> Inl OperationalError"
proof (intro conjI impI)
  assume "find_available m q s = Inl OperationalError"
  then have t: "get_task_to_run_try m worker_name reg q s = (Inl OperationalError, s)"
    by (simp add: get_task_to_run_try_def)
  then show "get_task_to_run m worker_name reg q s
        = (Inr None, s, [Log ''Failed to retrieve tasks. Database unreachable.''])"
    by (simp add: get_task_to_run_def)
  then show "run_next_task run_async e m worker_name reg q s
        = (Some False, s,
           \<lparr>raised = None, trace = [Log ''Failed to retrieve tasks. Database unreachable.''],
            submitted = []\<rparr>)"
    by (simp add: run_next_task_def)
next
  assume "get_task_to_run_try m worker_name reg q s = (Inl OperationalError, s')"
  then show g: "get_task_to_run m worker_name reg q s
        = (Inr None, s', [Log ''Failed to retrieve tasks. Database unreachable.''])"
    by (simp add: get_task_to_run_def)
  then show "run_next_task run_async e m worker_name reg q s
        = (Some False, s',
           \<lparr>raised = None, trace = [Log ''Failed to retrieve tasks. Database unreachable.''],
            submitted = []\<rparr>)"
    by (simp add: run_next_task_def)
next
  show "fst (get_task_to_run m worker_name reg q s) \<noteq> Inl OperationalError"
    by (cases "get_task_to_run_try m worker_name reg q s")
       (auto simp: get_task_to_run_def split: sum.splits)
qed


theorem operational_error_no_work_witness:
  "find_available down_models None () = Inl OperationalError
   \<and> run_next_task False sample_env down_models ''worker'' sample_registry None ()
       = (Some False, (),
          \<lparr>raised = None, trace = [Log ''Failed to retrieve tasks. Database unreachable.''],
           submitted = []\<rparr>)
   \<and> get_task_to_run_try lock_down_models ''worker'' sample_registry None ()
       = (Inl OperationalError, ())
   \<and> run_next_task False sample_env lock_down_models ''worker'' sample_registry None ()
       = (Some False, (),
          \<lparr>raised = None, trace = [Log ''Failed to retrieve tasks. Database unreachable.''],
           submitted = []\<rparr>)"
  using operational_error_no_work [of down_models None "()" "''worker''" sample_registry False
      sample_env "()"]
    operational_error_no_work [of lock_down_models None "()" "''worker''" sample_registry False
      sample_env "()"]
    sample_outage
  by blast

end
